theory Spec2Isabelle
  imports Complex_Main "HOL-Library.Word"
begin

section \<open>Scalars, vectors and failures\<close>

text \<open>
  The classes of \<^verbatim>\<open>neural_net.cpp\<close> are templates over a scalar type \<^verbatim>\<open>S\<close>.  The
  embedding instantiates \<^verbatim>\<open>S\<close> with the real numbers: \<^verbatim>\<open>std::exp\<close> is \<^term>\<open>exp\<close>
  and the arithmetic operators are the field operations.  This says which
  expression every function evaluates; the rounding of a machine \<^verbatim>\<open>double\<close> is
  treated further down, where Softmax, \<^verbatim>\<open>updateGrad\<close> and \<^verbatim>\<open>updateParam\<close> are given
  again with the arithmetic as a parameter.  A \<^verbatim>\<open>std::vector<S>\<close> is a list, a
  \<^verbatim>\<open>std::vector<std::vector<S>>\<close> a list of rows.  The sizes \<^verbatim>\<open>_inSize\<close> and
  \<^verbatim>\<open>_outSize\<close> are the lengths of vectors held in memory and the bounds of \<^verbatim>\<open>for\<close>
  statements whose counters are \<^verbatim>\<open>int\<close>; they are natural numbers here, and sizes that an
  \<^verbatim>\<open>int\<close> or a \<^verbatim>\<open>size_t\<close> cannot hold are outside the model.  The counter
  \<^verbatim>\<open>_sampleCount\<close>, a \<^verbatim>\<open>size_t\<close> that every call of \<^verbatim>\<open>updateGrad\<close> increments, is
  a 64-bit word.

  \<^verbatim>\<open>operator[]\<close> of \<^verbatim>\<open>std::vector\<close> is unchecked: an index past the end is undefined
  behaviour.  The model makes every such access a failure \<open>OutOfBounds\<close>.
  \<^verbatim>\<open>std::log\<close> of a number that is not positive is minus infinity or NaN, not a real
  number: the model fails with \<open>NonFinite\<close> there.
\<close>

type_synonym vec = "real list"
type_synonym mat = "real list list"

datatype error = OutOfBounds | NonFinite

section \<open>Activation functions\<close>

text \<open>
  \<^verbatim>\<open>std::for_each\<close> with a lambda that assigns through its reference argument
  rewrites every element of the vector in place: it is \<^const>\<open>map\<close>.
\<close>

definition ReLu_activation :: "vec \<Rightarrow> vec" where
  "ReLu_activation input = map (\<lambda>x. if x > 0 then x else 0) input"

definition ReLu_gradient :: "vec \<Rightarrow> vec" where
  "ReLu_gradient input = map (\<lambda>x. if x > 0 then 1 else 0) input"

definition sigmoid :: "real \<Rightarrow> real" where
  "sigmoid x = 1 / (1 + exp x)"

definition Sigmoid_activation :: "vec \<Rightarrow> vec" where
  "Sigmoid_activation input = map (\<lambda>x. sigmoid x) input"

definition Sigmoid_gradient :: "vec \<Rightarrow> vec" where
  "Sigmoid_gradient input = map (\<lambda>x. sigmoid x / (1 - sigmoid x)) input"

definition swish :: "real \<Rightarrow> real" where
  "swish x = x * sigmoid x"

definition swishGradient :: "real \<Rightarrow> real" where
  "swishGradient x = swish x + sigmoid x * (1 - swish x)"

definition Swish_activation :: "vec \<Rightarrow> vec" where
  "Swish_activation input = map (\<lambda>x. swish x) input"

definition Swish_gradient :: "vec \<Rightarrow> vec" where
  "Swish_gradient input = map (\<lambda>x. swishGradient x) input"

text \<open>
  \<^verbatim>\<open>std::accumulate\<close> adds the elements from the left, starting from its initial
  value 0.  With an empty vector no division is executed.
\<close>

definition Softmax_activation :: "vec \<Rightarrow> vec" where
  "Softmax_activation input =
     (let e = map (\<lambda>x. exp x) input;
          sum = foldl (+) 0 e
      in map (\<lambda>x. x / sum) e)"

definition Softmax_gradient :: "vec \<Rightarrow> vec" where
  "Softmax_gradient input = input"

datatype ActivationType = RELU | SIGMOID | SWISH | SOFTMAX

text \<open>
  The virtual calls \<^verbatim>\<open>_activation->activation\<close> and \<^verbatim>\<open>_activation->gradient\<close>,
  dispatched on the class chosen by the constructor's \<^verbatim>\<open>switch\<close>.
\<close>

fun Activation_activation :: "ActivationType \<Rightarrow> vec \<Rightarrow> vec" where
  "Activation_activation RELU input = ReLu_activation input"
| "Activation_activation SIGMOID input = Sigmoid_activation input"
| "Activation_activation SWISH input = Swish_activation input"
| "Activation_activation SOFTMAX input = Softmax_activation input"

fun Activation_gradient :: "ActivationType \<Rightarrow> vec \<Rightarrow> vec" where
  "Activation_gradient RELU input = ReLu_gradient input"
| "Activation_gradient SIGMOID input = Sigmoid_gradient input"
| "Activation_gradient SWISH input = Swish_gradient input"
| "Activation_gradient SOFTMAX input = Softmax_gradient input"

section \<open>Layer\<close>

text \<open>
  The members \<^verbatim>\<open>_inSize\<close>, \<^verbatim>\<open>_outSize\<close>, \<^verbatim>\<open>_sampleCount\<close>, \<^verbatim>\<open>_w\<close>,
  \<^verbatim>\<open>_w_grad\<close>, \<^verbatim>\<open>_input\<close>, \<^verbatim>\<open>_u\<close>, \<^verbatim>\<open>_output\<close> and \<^verbatim>\<open>_activation\<close>; a name
  cannot start with an underscore here, so each carries the prefix \<open>l\<close>.
\<close>

record Layer =
  l_inSize :: nat
  l_outSize :: nat
  l_sampleCount :: "64 word"
  l_w :: mat
  l_w_grad :: mat
  l_input :: vec
  l_u :: vec
  l_output :: vec
  l_activation :: ActivationType

text \<open>
  The constructor.  The random generator is a parameter: \<open>rand k\<close> is the value of
  the \<open>k\<close>-th call of \<^verbatim>\<open>rg.rand()\<close>, drawn row by row.
\<close>

definition Layer_ctor :: "nat \<Rightarrow> nat \<Rightarrow> ActivationType \<Rightarrow> (nat \<Rightarrow> real) \<Rightarrow> Layer" where
  "Layer_ctor inSz outSz activationType rand =
     \<lparr> l_inSize = inSz + 1,
       l_outSize = outSz,
       l_sampleCount = 0,
       l_w = map (\<lambda>i. map (\<lambda>j. rand (i * outSz + j) / real (inSz + 1)) [0..<outSz]) [0..<inSz + 1],
       l_w_grad = map (\<lambda>i. replicate outSz 0) [0..<inSz + 1],
       l_input = replicate (inSz + 1) 0,
       l_u = replicate outSz 0,
       l_output = replicate outSz 0,
       l_activation = activationType \<rparr>"

subsection \<open>forward\<close>

text \<open>
  The inner loop over \<open>j\<close> for a fixed \<open>i\<close>:
  \<^verbatim>\<open>_u[j] += _input[i] * _w[i][j]\<close>.
\<close>

fun forward_j :: "vec \<Rightarrow> mat \<Rightarrow> nat \<Rightarrow> nat list \<Rightarrow> vec \<Rightarrow> error + vec" where
  "forward_j inp wt i [] uu = Inr uu"
| "forward_j inp wt i (j # js) uu =
     (if j < length uu \<and> i < length inp \<and> i < length wt \<and> j < length (wt ! i)
      then forward_j inp wt i js (uu[j := uu ! j + inp ! i * wt ! i ! j])
      else Inl OutOfBounds)"

fun forward_i :: "vec \<Rightarrow> mat \<Rightarrow> nat \<Rightarrow> nat list \<Rightarrow> vec \<Rightarrow> error + vec" where
  "forward_i inp wt n [] uu = Inr uu"
| "forward_i inp wt n (i # is) uu =
     (case forward_j inp wt i [0..<n] uu of
        Inl e \<Rightarrow> Inl e
      | Inr uu' \<Rightarrow> forward_i inp wt n is uu')"

definition Layer_forward :: "Layer \<Rightarrow> vec \<Rightarrow> error + (vec \<times> Layer)" where
  "Layer_forward l x =
     (let inp = x @ [1];
          u0 = replicate (length (l_u l)) 0
      in case forward_i inp (l_w l) (l_outSize l) [0..<l_inSize l] u0 of
           Inl e \<Rightarrow> Inl e
         | Inr u' \<Rightarrow>
             (let out = Activation_activation (l_activation l) u'
              in Inr (out, l\<lparr>l_input := inp, l_u := u', l_output := out\<rparr>)))"

subsection \<open>calcDelta\<close>

text \<open>
  The inner loop over \<open>k\<close> for a fixed \<open>j\<close>:
  \<^verbatim>\<open>delta[j] += nextDelta[k] * nextW[j][k] * grad[j]\<close>.
\<close>

fun calcDelta_k :: "vec \<Rightarrow> mat \<Rightarrow> vec \<Rightarrow> nat \<Rightarrow> nat list \<Rightarrow> vec \<Rightarrow> error + vec" where
  "calcDelta_k nextDelta nextW grad j [] delta = Inr delta"
| "calcDelta_k nextDelta nextW grad j (k # ks) delta =
     (if j < length delta \<and> k < length nextDelta \<and> j < length nextW \<and>
         k < length (nextW ! j) \<and> j < length grad
      then calcDelta_k nextDelta nextW grad j ks
             (delta[j := delta ! j + nextDelta ! k * nextW ! j ! k * grad ! j])
      else Inl OutOfBounds)"

text \<open>
  The outer loop; its inner bound \<^verbatim>\<open>nextW[j].size()\<close> reads row \<open>j\<close> of the next
  layer's matrix.
\<close>

fun calcDelta_j :: "vec \<Rightarrow> mat \<Rightarrow> vec \<Rightarrow> nat list \<Rightarrow> vec \<Rightarrow> error + vec" where
  "calcDelta_j nextDelta nextW grad [] delta = Inr delta"
| "calcDelta_j nextDelta nextW grad (j # js) delta =
     (if j < length nextW
      then (case calcDelta_k nextDelta nextW grad j [0..<length (nextW ! j)] delta of
              Inl e \<Rightarrow> Inl e
            | Inr delta' \<Rightarrow> calcDelta_j nextDelta nextW grad js delta')
      else Inl OutOfBounds)"

text \<open>
  \<^verbatim>\<open>calcDelta\<close> is a member function that is not declared \<^verbatim>\<open>const\<close>; its body
  assigns to locals only, so the layer it hands back is the layer it was given.
\<close>

definition Layer_calcDelta :: "Layer \<Rightarrow> vec \<Rightarrow> mat \<Rightarrow> error + (vec \<times> Layer)" where
  "Layer_calcDelta l nextDelta nextW =
     (let delta = replicate (l_outSize l) 0;
          grad = Activation_gradient (l_activation l) (l_u l)
      in case calcDelta_j nextDelta nextW grad [0..<l_outSize l] delta of
           Inl e \<Rightarrow> Inl e
         | Inr delta' \<Rightarrow> Inr (delta', l))"

subsection \<open>updateGrad\<close>

text \<open>The loop body is \<^verbatim>\<open>_w_grad[i][j] += _input[i] * delta[j]\<close>.\<close>

fun updateGrad_j :: "vec \<Rightarrow> vec \<Rightarrow> nat \<Rightarrow> nat list \<Rightarrow> mat \<Rightarrow> error + mat" where
  "updateGrad_j inp delta i [] wg = Inr wg"
| "updateGrad_j inp delta i (j # js) wg =
     (if i < length wg \<and> j < length (wg ! i) \<and> i < length inp \<and> j < length delta
      then updateGrad_j inp delta i js
             (wg[i := (wg ! i)[j := wg ! i ! j + inp ! i * delta ! j]])
      else Inl OutOfBounds)"

fun updateGrad_i :: "vec \<Rightarrow> vec \<Rightarrow> nat \<Rightarrow> nat list \<Rightarrow> mat \<Rightarrow> error + mat" where
  "updateGrad_i inp delta n [] wg = Inr wg"
| "updateGrad_i inp delta n (i # is) wg =
     (case updateGrad_j inp delta i [0..<n] wg of
        Inl e \<Rightarrow> Inl e
      | Inr wg' \<Rightarrow> updateGrad_i inp delta n is wg')"

definition Layer_updateGrad :: "Layer \<Rightarrow> vec \<Rightarrow> error + Layer" where
  "Layer_updateGrad l delta =
     (case updateGrad_i (l_input l) delta (l_outSize l) [0..<l_inSize l] (l_w_grad l) of
        Inl e \<Rightarrow> Inl e
      | Inr wg \<Rightarrow> Inr (l\<lparr>l_w_grad := wg, l_sampleCount := l_sampleCount l + 1\<rparr>))"

subsection \<open>updateParam\<close>

text \<open>
  The loop body is
  \<^verbatim>\<open>_w[i][j] -= _w_grad[i][j] * learningRate / _sampleCount; _w_grad[i][j] = 0\<close>;
  the counter is converted to the scalar type for the division.  The iteration runs
  on the pair of the two matrices.
\<close>

fun updateParam_j :: "real \<Rightarrow> 64 word \<Rightarrow> nat \<Rightarrow> nat list \<Rightarrow> mat \<times> mat \<Rightarrow> error + (mat \<times> mat)" where
  "updateParam_j learningRate cnt i [] (wt, wg) = Inr (wt, wg)"
| "updateParam_j learningRate cnt i (j # js) (wt, wg) =
     (if i < length wt \<and> j < length (wt ! i) \<and> i < length wg \<and> j < length (wg ! i)
      then updateParam_j learningRate cnt i js
             (wt[i := (wt ! i)[j := wt ! i ! j - wg ! i ! j * learningRate / real (unat cnt)]],
              wg[i := (wg ! i)[j := 0]])
      else Inl OutOfBounds)"

fun updateParam_i :: "real \<Rightarrow> 64 word \<Rightarrow> nat \<Rightarrow> nat list \<Rightarrow> mat \<times> mat \<Rightarrow> error + (mat \<times> mat)" where
  "updateParam_i learningRate cnt n [] ws = Inr ws"
| "updateParam_i learningRate cnt n (i # is) ws =
     (case updateParam_j learningRate cnt i [0..<n] ws of
        Inl e \<Rightarrow> Inl e
      | Inr ws' \<Rightarrow> updateParam_i learningRate cnt n is ws')"

definition Layer_updateParam :: "Layer \<Rightarrow> real \<Rightarrow> error + Layer" where
  "Layer_updateParam l learningRate =
     (if l_sampleCount l = 0 then Inr l
      else (case updateParam_i learningRate (l_sampleCount l) (l_outSize l) [0..<l_inSize l]
                   (l_w l, l_w_grad l) of
              Inl e \<Rightarrow> Inl e
            | Inr (wt, wg) \<Rightarrow> Inr (l\<lparr>l_w := wt, l_w_grad := wg, l_sampleCount := 0\<rparr>)))"

section \<open>Network\<close>

text \<open>The members \<^verbatim>\<open>_verbose\<close> and \<^verbatim>\<open>_layers\<close>, with the prefix \<open>n\<close>.\<close>

record Network =
  n_verbose :: bool
  n_layers :: "Layer list"

definition Network_ctor :: "bool \<Rightarrow> Network" where
  "Network_ctor v = \<lparr> n_verbose = v, n_layers = [] \<rparr>"

definition addLayer :: "Network \<Rightarrow> Layer \<Rightarrow> Network" where
  "addLayer net layer = net\<lparr>n_layers := n_layers net @ [layer]\<rparr>"

subsection \<open>forward\<close>

text \<open>
  The range-based loop of \<^verbatim>\<open>Network::forward\<close>: every layer is run on the
  buffer and keeps its own forward state.
\<close>

fun forward_layers :: "Layer list \<Rightarrow> vec \<Rightarrow> error + (vec \<times> Layer list)" where
  "forward_layers [] buffer = Inr (buffer, [])"
| "forward_layers (layer # rest) buffer =
     (case Layer_forward layer buffer of
        Inl e \<Rightarrow> Inl e
      | Inr (out, layer') \<Rightarrow>
          (case forward_layers rest out of
             Inl e \<Rightarrow> Inl e
           | Inr (res, rest') \<Rightarrow> Inr (res, layer' # rest')))"

definition Network_forward :: "Network \<Rightarrow> vec \<Rightarrow> error + (vec \<times> Network)" where
  "Network_forward net x =
     (case forward_layers (n_layers net) x of
        Inl e \<Rightarrow> Inl e
      | Inr (res, ls) \<Rightarrow> Inr (res, net\<lparr>n_layers := ls\<rparr>))"

subsection \<open>backward\<close>

text \<open>
  The first loop: \<^verbatim>\<open>delta[i] = y[i] - target[i]\<close> for every index of \<open>y\<close>, on a
  vector \<open>delta\<close> made with the length of the target.
\<close>

fun backward_delta :: "vec \<Rightarrow> vec \<Rightarrow> nat list \<Rightarrow> vec \<Rightarrow> error + vec" where
  "backward_delta y target [] delta = Inr delta"
| "backward_delta y target (i # is) delta =
     (if i < length delta \<and> i < length y \<and> i < length target
      then backward_delta y target is (delta[i := y ! i - target ! i])
      else Inl OutOfBounds)"

text \<open>
  What a verbose network writes to \<^verbatim>\<open>std::cout\<close>: one line
  \<^verbatim>\<open>delta of layer l: ...\<close> for each layer, kept as the pair of the layer's index and
  the delta printed.
\<close>

type_synonym printed = "(nat \<times> vec) list"

text \<open>
  The second loop, \<open>l\<close> going down from \<^verbatim>\<open>_layers.size() - 2\<close> to 0:
  \<^verbatim>\<open>delta = _layers[l].calcDelta(delta, _layers[l+1]._w); _layers[l].updateGrad(delta)\<close>,
  then the line printed when verbose.
\<close>

fun backward_layers ::
  "bool \<Rightarrow> nat list \<Rightarrow> Layer list \<Rightarrow> vec \<Rightarrow> printed \<Rightarrow> error + (printed \<times> Layer list)" where
  "backward_layers v [] ls delta out = Inr (out, ls)"
| "backward_layers v (l # rest) ls delta out =
     (if l + 1 < length ls
      then (case Layer_calcDelta (ls ! l) delta (l_w (ls ! (l + 1))) of
              Inl e \<Rightarrow> Inl e
            | Inr (delta', cl) \<Rightarrow>
                (case Layer_updateGrad cl delta' of
                   Inl e \<Rightarrow> Inl e
                 | Inr ul \<Rightarrow>
                     backward_layers v rest (ls[l := ul]) delta'
                       (if v then out @ [(l, delta')] else out)))
      else Inl OutOfBounds)"

definition Network_backward :: "Network \<Rightarrow> vec \<Rightarrow> error + (printed \<times> Network)" where
  "Network_backward net target =
     (let ls = n_layers net; n = length ls
      in if ls = [] then Inl OutOfBounds
         else
           (let lastLayer = ls ! (n - 1);
                y = l_output lastLayer
            in case backward_delta y target [0..<length y] (replicate (length target) 0) of
                 Inl e \<Rightarrow> Inl e
               | Inr delta \<Rightarrow>
                   (let out = (if n_verbose net then [(n - 1, delta)] else [])
                    in case Layer_updateGrad lastLayer delta of
                         Inl e \<Rightarrow> Inl e
                       | Inr ll \<Rightarrow>
                           (case backward_layers (n_verbose net) (rev [0..<n - 1])
                                   (ls[n - 1 := ll]) delta out of
                              Inl e \<Rightarrow> Inl e
                            | Inr (out', ls') \<Rightarrow> Inr (out', net\<lparr>n_layers := ls'\<rparr>)))))"

subsection \<open>calcLoss\<close>

text \<open>
  The loop body is
  \<^verbatim>\<open>loss -= target[i] * std::log(_layers[_layers.size() - 1]._output[i])\<close>: the last
  layer is looked up in every round, and with no layer the index
  \<^verbatim>\<open>_layers.size() - 1\<close> wraps around to the largest \<^verbatim>\<open>size_t\<close>.
\<close>

fun calcLoss_loop :: "Layer list \<Rightarrow> vec \<Rightarrow> nat list \<Rightarrow> real \<Rightarrow> error + real" where
  "calcLoss_loop ls target [] loss = Inr loss"
| "calcLoss_loop ls target (i # is) loss =
     (if ls \<noteq> [] \<and> i < length target \<and> i < length (l_output (ls ! (length ls - 1)))
      then (if 0 < l_output (ls ! (length ls - 1)) ! i
            then calcLoss_loop ls target is
                   (loss - target ! i * ln (l_output (ls ! (length ls - 1)) ! i))
            else Inl NonFinite)
      else Inl OutOfBounds)"

definition Network_calcLoss :: "Network \<Rightarrow> vec \<Rightarrow> error + (real \<times> Network)" where
  "Network_calcLoss net target =
     (case calcLoss_loop (n_layers net) target [0..<length target] 0 of
        Inl e \<Rightarrow> Inl e
      | Inr loss \<Rightarrow> Inr (loss, net))"

subsection \<open>updateParam\<close>

fun updateParam_layers :: "Layer list \<Rightarrow> real \<Rightarrow> error + Layer list" where
  "updateParam_layers [] learningRate = Inr []"
| "updateParam_layers (layer # rest) learningRate =
     (case Layer_updateParam layer learningRate of
        Inl e \<Rightarrow> Inl e
      | Inr layer' \<Rightarrow>
          (case updateParam_layers rest learningRate of
             Inl e \<Rightarrow> Inl e
           | Inr rest' \<Rightarrow> Inr (layer' # rest')))"

definition Network_updateParam :: "Network \<Rightarrow> real \<Rightarrow> error + Network" where
  "Network_updateParam net learningRate =
     (case updateParam_layers (n_layers net) learningRate of
        Inl e \<Rightarrow> Inl e
      | Inr ls \<Rightarrow> Inr (net\<lparr>n_layers := ls\<rparr>))"

section \<open>The scalar arithmetic as a parameter\<close>

text \<open>
  What Softmax, \<^verbatim>\<open>updateGrad\<close> and \<^verbatim>\<open>updateParam\<close> return depends on how the scalar
  type rounds: the source is only ever instantiated with \<^verbatim>\<open>double\<close>.  For these three
  the embedding is given a second time, for any scalar type \<open>'a\<close>, with the arithmetic
  of \<^verbatim>\<open>S\<close> as a parameter: a record of the operations the template uses on \<^verbatim>\<open>S\<close>
  (the literal 0, the four operators, \<^verbatim>\<open>std::exp\<close>, and the conversion of a
  \<^verbatim>\<open>size_t\<close> to \<^verbatim>\<open>S\<close>).  Each definition is the one above with every operator
  replaced by the record's field.
\<close>

record 'a arith =
  a_zero :: 'a
  a_add :: "'a \<Rightarrow> 'a \<Rightarrow> 'a"
  a_sub :: "'a \<Rightarrow> 'a \<Rightarrow> 'a"
  a_mul :: "'a \<Rightarrow> 'a \<Rightarrow> 'a"
  a_div :: "'a \<Rightarrow> 'a \<Rightarrow> 'a"
  a_exp :: "'a \<Rightarrow> 'a"
  a_of_size :: "64 word \<Rightarrow> 'a"

text \<open>The arithmetic of the reals: with it, the definitions below are the ones above.\<close>

definition exact_arith :: "real arith" where
  "exact_arith =
     \<lparr> a_zero = 0, a_add = (+), a_sub = (-), a_mul = (*), a_div = (/), a_exp = exp,
       a_of_size = (\<lambda>c. real (unat c)) \<rparr>"

text \<open>
  The arithmetic of IEEE 754 binary64.  \<open>rhe\<close> rounds a real to the nearest integer,
  a tie to the even one.  \<open>rd\<close> rounds a real to the nearest number with a
  significand of 53 bits, a tie to the even significand; the exponent does not go
  below -1022, so that small numbers are rounded on the grid of the subnormal
  numbers and the smallest of them to 0.  Every operation is the exact one followed
  by \<open>rd\<close>; \<^verbatim>\<open>std::exp\<close> is the rounded exponential.  Results of magnitude
  \<open>2\<^sup>1\<^sup>0\<^sup>2\<^sup>4\<close> or more, which are infinities in \<^verbatim>\<open>double\<close>, and NaN are outside this
  arithmetic.
\<close>

definition rhe :: "real \<Rightarrow> int" where
  "rhe y =
     (let f = \<lfloor>y\<rfloor>
      in if y - of_int f < 1 / 2 then f
         else if 1 / 2 < y - of_int f then f + 1
         else if even f then f else f + 1)"

definition rd :: "real \<Rightarrow> real" where
  "rd x =
     (let e = max \<lfloor>log 2 \<bar>x\<bar>\<rfloor> (- 1022);
          ulp = 2 powr (of_int e - 52)
      in ulp * of_int (rhe (x / ulp)))"

definition double_arith :: "real arith" where
  "double_arith =
     \<lparr> a_zero = 0,
       a_add = (\<lambda>x y. rd (x + y)),
       a_sub = (\<lambda>x y. rd (x - y)),
       a_mul = (\<lambda>x y. rd (x * y)),
       a_div = (\<lambda>x y. rd (x / y)),
       a_exp = (\<lambda>x. rd (exp x)),
       a_of_size = (\<lambda>c. rd (real (unat c))) \<rparr>"

subsection \<open>Softmax\<close>

definition Softmax_activation_S :: "'a arith \<Rightarrow> 'a list \<Rightarrow> 'a list" where
  "Softmax_activation_S A input =
     (let e = map (\<lambda>x. a_exp A x) input;
          sum = foldl (a_add A) (a_zero A) e
      in map (\<lambda>x. a_div A x sum) e)"

subsection \<open>Layer\<close>

text \<open>The members of a layer over the scalar type \<open>'a\<close>, with the prefix \<open>s\<close>.\<close>

record 'a LayerS =
  s_inSize :: nat
  s_outSize :: nat
  s_sampleCount :: "64 word"
  s_w :: "'a list list"
  s_w_grad :: "'a list list"
  s_input :: "'a list"
  s_u :: "'a list"
  s_output :: "'a list"
  s_activation :: ActivationType

text \<open>A layer over the reals, read as a layer over the scalar type \<open>real\<close>.\<close>

definition to_S :: "Layer \<Rightarrow> real LayerS" where
  "to_S l =
     \<lparr> s_inSize = l_inSize l, s_outSize = l_outSize l, s_sampleCount = l_sampleCount l,
       s_w = l_w l, s_w_grad = l_w_grad l, s_input = l_input l, s_u = l_u l,
       s_output = l_output l, s_activation = l_activation l \<rparr>"

subsection \<open>updateGrad\<close>

fun updateGrad_j_S ::
  "'a arith \<Rightarrow> 'a list \<Rightarrow> 'a list \<Rightarrow> nat \<Rightarrow> nat list \<Rightarrow> 'a list list \<Rightarrow> error + 'a list list" where
  "updateGrad_j_S A inp delta i [] wg = Inr wg"
| "updateGrad_j_S A inp delta i (j # js) wg =
     (if i < length wg \<and> j < length (wg ! i) \<and> i < length inp \<and> j < length delta
      then updateGrad_j_S A inp delta i js
             (wg[i := (wg ! i)[j := a_add A (wg ! i ! j) (a_mul A (inp ! i) (delta ! j))]])
      else Inl OutOfBounds)"

fun updateGrad_i_S ::
  "'a arith \<Rightarrow> 'a list \<Rightarrow> 'a list \<Rightarrow> nat \<Rightarrow> nat list \<Rightarrow> 'a list list \<Rightarrow> error + 'a list list" where
  "updateGrad_i_S A inp delta n [] wg = Inr wg"
| "updateGrad_i_S A inp delta n (i # is) wg =
     (case updateGrad_j_S A inp delta i [0..<n] wg of
        Inl e \<Rightarrow> Inl e
      | Inr wg' \<Rightarrow> updateGrad_i_S A inp delta n is wg')"

definition Layer_updateGrad_S :: "'a arith \<Rightarrow> 'a LayerS \<Rightarrow> 'a list \<Rightarrow> error + 'a LayerS" where
  "Layer_updateGrad_S A l delta =
     (case updateGrad_i_S A (s_input l) delta (s_outSize l) [0..<s_inSize l] (s_w_grad l) of
        Inl e \<Rightarrow> Inl e
      | Inr wg \<Rightarrow> Inr (l\<lparr>s_w_grad := wg, s_sampleCount := s_sampleCount l + 1\<rparr>))"

subsection \<open>updateParam\<close>

fun updateParam_j_S ::
  "'a arith \<Rightarrow> 'a \<Rightarrow> 64 word \<Rightarrow> nat \<Rightarrow> nat list \<Rightarrow> 'a list list \<times> 'a list list \<Rightarrow>
     error + ('a list list \<times> 'a list list)" where
  "updateParam_j_S A learningRate cnt i [] (wt, wg) = Inr (wt, wg)"
| "updateParam_j_S A learningRate cnt i (j # js) (wt, wg) =
     (if i < length wt \<and> j < length (wt ! i) \<and> i < length wg \<and> j < length (wg ! i)
      then updateParam_j_S A learningRate cnt i js
             (wt[i := (wt ! i)[j := a_sub A (wt ! i ! j)
                 (a_div A (a_mul A (wg ! i ! j) learningRate) (a_of_size A cnt))]],
              wg[i := (wg ! i)[j := a_zero A]])
      else Inl OutOfBounds)"

fun updateParam_i_S ::
  "'a arith \<Rightarrow> 'a \<Rightarrow> 64 word \<Rightarrow> nat \<Rightarrow> nat list \<Rightarrow> 'a list list \<times> 'a list list \<Rightarrow>
     error + ('a list list \<times> 'a list list)" where
  "updateParam_i_S A learningRate cnt n [] ws = Inr ws"
| "updateParam_i_S A learningRate cnt n (i # is) ws =
     (case updateParam_j_S A learningRate cnt i [0..<n] ws of
        Inl e \<Rightarrow> Inl e
      | Inr ws' \<Rightarrow> updateParam_i_S A learningRate cnt n is ws')"

definition Layer_updateParam_S :: "'a arith \<Rightarrow> 'a LayerS \<Rightarrow> 'a \<Rightarrow> error + 'a LayerS" where
  "Layer_updateParam_S A l learningRate =
     (if s_sampleCount l = 0 then Inr l
      else (case updateParam_i_S A learningRate (s_sampleCount l) (s_outSize l) [0..<s_inSize l]
                   (s_w l, s_w_grad l) of
              Inl e \<Rightarrow> Inl e
            | Inr (wt, wg) \<Rightarrow> Inr (l\<lparr>s_w := wt, s_w_grad := wg, s_sampleCount := 0\<rparr>)))"

subsection \<open>Accumulating one sample several times\<close>

text \<open>
  The scenario of a caller that calls \<^verbatim>\<open>updateGrad\<close> \<open>N\<close> times with the same delta
  on a layer whose cached input stays the same, then \<^verbatim>\<open>updateParam\<close>, and reads the
  weights.
\<close>

fun updateGrad_times :: "'a arith \<Rightarrow> nat \<Rightarrow> 'a LayerS \<Rightarrow> 'a list \<Rightarrow> error + 'a LayerS" where
  "updateGrad_times A 0 l delta = Inr l"
| "updateGrad_times A (Suc n) l delta =
     (case Layer_updateGrad_S A l delta of
        Inl e \<Rightarrow> Inl e
      | Inr l' \<Rightarrow> updateGrad_times A n l' delta)"

definition accumulate_then_update ::
  "'a arith \<Rightarrow> nat \<Rightarrow> 'a LayerS \<Rightarrow> 'a list \<Rightarrow> 'a \<Rightarrow> error + 'a list list" where
  "accumulate_then_update A N l delta learningRate =
     (case updateGrad_times A N l delta of
        Inl e \<Rightarrow> Inl e
      | Inr l' \<Rightarrow>
          (case Layer_updateParam_S A l' learningRate of
             Inl e \<Rightarrow> Inl e
           | Inr l'' \<Rightarrow> Inr (s_w l'')))"

section \<open>The shape invariant\<close>

text \<open>
  What the constructor establishes and every member function keeps: both matrices
  have \<^verbatim>\<open>_inSize\<close> rows of \<^verbatim>\<open>_outSize\<close> entries, and the three cached vectors have
  the lengths the comments of the source give them (\<^verbatim>\<open>_input\<close> with the appended 1).
\<close>

definition Layer_inv :: "Layer \<Rightarrow> bool" where
  "Layer_inv l \<longleftrightarrow>
     length (l_w l) = l_inSize l \<and> (\<forall>r \<in> set (l_w l). length r = l_outSize l) \<and>
     length (l_w_grad l) = l_inSize l \<and> (\<forall>r \<in> set (l_w_grad l). length r = l_outSize l) \<and>
     length (l_input l) = l_inSize l \<and>
     length (l_u l) = l_outSize l \<and>
     length (l_output l) = l_outSize l"

text \<open>The same shape for a layer over the scalar type \<open>'a\<close>.\<close>

definition LayerS_inv :: "'a LayerS \<Rightarrow> bool" where
  "LayerS_inv l \<longleftrightarrow>
     length (s_w l) = s_inSize l \<and> (\<forall>r \<in> set (s_w l). length r = s_outSize l) \<and>
     length (s_w_grad l) = s_inSize l \<and> (\<forall>r \<in> set (s_w_grad l). length r = s_outSize l) \<and>
     length (s_input l) = s_inSize l \<and>
     length (s_u l) = s_outSize l \<and>
     length (s_output l) = s_outSize l"

text \<open>
  For a network: every layer has that shape, and each layer takes as many inputs as
  the layer before it has outputs (the caller's responsibility, which
  \<^verbatim>\<open>addLayer\<close> does not check).
\<close>

fun chained :: "Layer list \<Rightarrow> bool" where
  "chained [] = True"
| "chained [l] = True"
| "chained (l # l' # ls) = (l_inSize l' = l_outSize l + 1 \<and> chained (l' # ls))"

definition Network_inv :: "Network \<Rightarrow> bool" where
  "Network_inv net \<longleftrightarrow> list_all Layer_inv (n_layers net) \<and> chained (n_layers net)"

section \<open>A concrete layer\<close>

text \<open>
  A layer with two inputs and two outputs, made by the constructor from the random
  draws 0, 1/6, 2/6, 3/6, 4/6, 5/6, each divided by \<^verbatim>\<open>_inSize\<close> = 3.
\<close>

definition example_layer :: Layer where
  "example_layer = Layer_ctor 2 2 RELU (\<lambda>k. real k / 6)"

text \<open>The same layer after one forward pass on \<open>[1, -1]\<close>.\<close>

definition example_forwarded :: Layer where
  "example_forwarded =
     (case Layer_forward example_layer [1, -1] of
        Inl e \<Rightarrow> example_layer
      | Inr (out, l) \<Rightarrow> l)"

text \<open>
  Then one call of \<^verbatim>\<open>updateGrad\<close> with the delta \<open>[1, 2]\<close>: the accumulators hold
  one sample.
\<close>

definition example_accumulated :: Layer where
  "example_accumulated =
     (case Layer_updateGrad example_forwarded [1, 2] of
        Inl e \<Rightarrow> example_forwarded
      | Inr l \<Rightarrow> l)"

text \<open>
  A network of two layers, the second a Softmax layer whose random draws are all
  1/2, before and after a forward pass on \<open>[1, -1]\<close>.
\<close>

definition example_network :: Network where
  "example_network =
     addLayer (addLayer (Network_ctor True) example_layer)
       (Layer_ctor 2 2 SOFTMAX (\<lambda>k. 1 / 2))"

definition example_network_forwarded :: Network where
  "example_network_forwarded =
     (case Network_forward example_network [1, -1] of
        Inl e \<Rightarrow> example_network
      | Inr (out, net) \<Rightarrow> net)"

text \<open>Then one backward pass for the target \<open>[0, 1]\<close>.\<close>

definition example_network_accumulated :: Network where
  "example_network_accumulated =
     (case Network_backward example_network_forwarded [0, 1] of
        Inl e \<Rightarrow> example_network_forwarded
      | Inr (pr, net) \<Rightarrow> net)"

text \<open>
  Two networks of one layer after a forward pass: the layer above, whose second
  ReLU output is 0 for the input \<open>[-9, 1/4]\<close>, and a Swish layer with one input and
  one output, whose output is negative for the input \<open>[-5]\<close>.
\<close>

definition example_relu_network :: Network where
  "example_relu_network =
     (case Network_forward (addLayer (Network_ctor False) example_layer) [-9, 1 / 4] of
        Inl e \<Rightarrow> addLayer (Network_ctor False) example_layer
      | Inr (out, net) \<Rightarrow> net)"

definition example_swish_network :: Network where
  "example_swish_network =
     (case Network_forward (addLayer (Network_ctor False) (Layer_ctor 1 1 SWISH (\<lambda>k. 1 / 2))) [-5] of
        Inl e \<Rightarrow> addLayer (Network_ctor False) (Layer_ctor 1 1 SWISH (\<lambda>k. 1 / 2))
      | Inr (out, net) \<Rightarrow> net)"

text \<open>
  A layer with no input and one output whose only random draw is 0, after a forward
  pass on the empty vector: its cached input is the appended 1, its weight 0.  Every
  number in it is 0 or 1, so the forward pass is the same in \<^verbatim>\<open>double\<close>.  Then the same
  layer after one call of \<^verbatim>\<open>updateGrad\<close> with the delta \<open>[1]\<close>, in \<^verbatim>\<open>double\<close>.
\<close>

definition example_bias_layer :: "real LayerS" where
  "example_bias_layer =
     (case Layer_forward (Layer_ctor 0 1 RELU (\<lambda>k. 0)) [] of
        Inl e \<Rightarrow> to_S (Layer_ctor 0 1 RELU (\<lambda>k. 0))
      | Inr (out, l) \<Rightarrow> to_S l)"

definition example_bias_accumulated :: "real LayerS" where
  "example_bias_accumulated =
     (case Layer_updateGrad_S double_arith example_bias_layer [1] of
        Inl e \<Rightarrow> example_bias_layer
      | Inr l \<Rightarrow> l)"

section \<open>Properties\<close>

subsection \<open>Activations\<close>

lemma foldl_plus_sum_list: "foldl (+) a xs = a + sum_list (xs :: real list)"
  by (induction xs arbitrary: a) simp_all

lemma Softmax_activation_eq:
  "Softmax_activation xs = map (\<lambda>x. exp x / (\<Sum>y\<leftarrow>xs. exp y)) xs"
  by (simp add: Softmax_activation_def foldl_plus_sum_list)

lemma length_Activation_activation [simp]:
  "length (Activation_activation a xs) = length xs"
  by (cases a)
    (simp_all add: ReLu_activation_def Sigmoid_activation_def Swish_activation_def
      Softmax_activation_def)

lemma length_Activation_gradient [simp]:
  "length (Activation_gradient a xs) = length xs"
  by (cases a)
    (simp_all add: ReLu_gradient_def Sigmoid_gradient_def Swish_gradient_def
      Softmax_gradient_def)

subsection \<open>The iterations in closed form\<close>

lemma forward_j_eq:
  "distinct js \<Longrightarrow> \<forall>j \<in> set js. j < length uu \<and> j < length (wt ! i) \<Longrightarrow>
   i < length inp \<Longrightarrow> i < length wt \<Longrightarrow>
   forward_j inp wt i js uu =
     Inr (map (\<lambda>k. if k \<in> set js then uu ! k + inp ! i * wt ! i ! k else uu ! k) [0..<length uu])"
proof (induction js arbitrary: uu)
  case Nil
  then show ?case by (simp add: map_nth)
next
  case (Cons j js)
  let ?uu = "uu[j := uu ! j + inp ! i * wt ! i ! j]"
  have "forward_j inp wt i (j # js) uu = forward_j inp wt i js ?uu"
    using Cons.prems by simp
  also have "\<dots> = Inr (map (\<lambda>k. if k \<in> set js then ?uu ! k + inp ! i * wt ! i ! k else ?uu ! k)
                         [0..<length ?uu])"
    using Cons.prems by (intro Cons.IH) simp_all
  also have "\<dots> = Inr (map (\<lambda>k. if k \<in> set (j # js) then uu ! k + inp ! i * wt ! i ! k else uu ! k)
                         [0..<length uu])"
    using Cons.prems by (auto simp: nth_list_update)
  finally show ?case .
qed

lemma forward_i_eq:
  "\<forall>i \<in> set is. i < length inp \<and> i < length wt \<and> n \<le> length (wt ! i) \<Longrightarrow>
   n \<le> length uu \<Longrightarrow>
   forward_i inp wt n is uu =
     Inr (map (\<lambda>k. if k < n then uu ! k + (\<Sum>i\<leftarrow>is. inp ! i * wt ! i ! k) else uu ! k)
            [0..<length uu])"
proof (induction "is" arbitrary: uu)
  case Nil
  then show ?case by (auto intro!: nth_equalityI)
next
  case (Cons i "is")
  let ?uu = "map (\<lambda>k. if k \<in> set [0..<n] then uu ! k + inp ! i * wt ! i ! k else uu ! k)
               [0..<length uu]"
  have "forward_j inp wt i [0..<n] uu = Inr ?uu"
    using Cons.prems by (intro forward_j_eq) auto
  moreover have "forward_i inp wt n is ?uu =
      Inr (map (\<lambda>k. if k < n then ?uu ! k + (\<Sum>i\<leftarrow>is. inp ! i * wt ! i ! k) else ?uu ! k)
             [0..<length ?uu])"
    using Cons.prems by (intro Cons.IH) simp_all
  ultimately show ?case
    by (simp add: algebra_simps)
qed

lemma Layer_forward_eq:
  assumes "Layer_inv l" and "length x + 1 = l_inSize l"
  shows "Layer_forward l x =
     (let inp = x @ [1];
          u' = map (\<lambda>j. \<Sum>i<l_inSize l. inp ! i * l_w l ! i ! j) [0..<l_outSize l];
          out = Activation_activation (l_activation l) u'
      in Inr (out, l\<lparr>l_input := inp, l_u := u', l_output := out\<rparr>))"
proof -
  have "forward_i (x @ [1]) (l_w l) (l_outSize l) [0..<l_inSize l] (replicate (length (l_u l)) 0) =
     Inr (map (\<lambda>k. if k < l_outSize l
                    then replicate (length (l_u l)) 0 ! k + (\<Sum>i\<leftarrow>[0..<l_inSize l]. (x @ [1]) ! i * l_w l ! i ! k)
                    else replicate (length (l_u l)) 0 ! k)
            [0..<length (replicate (length (l_u l)) (0::real))])"
    using assms by (intro forward_i_eq) (auto simp: Layer_inv_def)
  also have "\<dots> = Inr (map (\<lambda>j. \<Sum>i<l_inSize l. (x @ [1]) ! i * l_w l ! i ! j) [0..<l_outSize l])"
    using assms by (auto simp: Layer_inv_def interv_sum_list_conv_sum_set_nat atLeast0LessThan)
  finally show ?thesis
    by (simp add: Layer_forward_def Let_def)
qed

lemma calcDelta_k_eq:
  "j < length delta \<Longrightarrow> j < length nextW \<Longrightarrow> j < length grad \<Longrightarrow>
   \<forall>k \<in> set ks. k < length nextDelta \<and> k < length (nextW ! j) \<Longrightarrow>
   calcDelta_k nextDelta nextW grad j ks delta =
     Inr (delta[j := delta ! j + (\<Sum>k\<leftarrow>ks. nextDelta ! k * nextW ! j ! k * grad ! j)])"
proof (induction ks arbitrary: delta)
  case Nil
  then show ?case by simp
next
  case (Cons k ks)
  then show ?case by (simp add: algebra_simps)
qed

lemma calcDelta_j_eq:
  "distinct js \<Longrightarrow>
   \<forall>j \<in> set js. j < length delta \<and> j < length nextW \<and> j < length grad \<and>
      length (nextW ! j) \<le> length nextDelta \<Longrightarrow>
   calcDelta_j nextDelta nextW grad js delta =
     Inr (map (\<lambda>j. if j \<in> set js
                    then delta ! j + (\<Sum>k\<leftarrow>[0..<length (nextW ! j)]. nextDelta ! k * nextW ! j ! k * grad ! j)
                    else delta ! j) [0..<length delta])"
proof (induction js arbitrary: delta)
  case Nil
  then show ?case by (simp add: map_nth)
next
  case (Cons j js)
  let ?d = "delta[j := delta ! j + (\<Sum>k\<leftarrow>[0..<length (nextW ! j)]. nextDelta ! k * nextW ! j ! k * grad ! j)]"
  have "calcDelta_k nextDelta nextW grad j [0..<length (nextW ! j)] delta = Inr ?d"
    using Cons.prems by (intro calcDelta_k_eq) auto
  moreover have "calcDelta_j nextDelta nextW grad js ?d =
     Inr (map (\<lambda>j. if j \<in> set js
                    then ?d ! j + (\<Sum>k\<leftarrow>[0..<length (nextW ! j)]. nextDelta ! k * nextW ! j ! k * grad ! j)
                    else ?d ! j) [0..<length ?d])"
    using Cons.prems by (intro Cons.IH) simp_all
  ultimately show ?case
    using Cons.prems by (auto simp: nth_list_update)
qed

lemma updateGrad_j_eq:
  "distinct js \<Longrightarrow> i < length wg \<Longrightarrow> i < length inp \<Longrightarrow>
   \<forall>j \<in> set js. j < length (wg ! i) \<and> j < length delta \<Longrightarrow>
   updateGrad_j inp delta i js wg =
     Inr (wg[i := map (\<lambda>k. if k \<in> set js then wg ! i ! k + inp ! i * delta ! k else wg ! i ! k)
                    [0..<length (wg ! i)]])"
proof (induction js arbitrary: wg)
  case Nil
  then show ?case by (simp add: map_nth)
next
  case (Cons j js)
  let ?wg = "wg[i := (wg ! i)[j := wg ! i ! j + inp ! i * delta ! j]]"
  have "updateGrad_j inp delta i (j # js) wg = updateGrad_j inp delta i js ?wg"
    using Cons.prems by simp
  also have "\<dots> = Inr (?wg[i := map (\<lambda>k. if k \<in> set js then ?wg ! i ! k + inp ! i * delta ! k else ?wg ! i ! k)
                    [0..<length (?wg ! i)]])"
    using Cons.prems by (intro Cons.IH) simp_all
  also have "\<dots> = Inr (wg[i := map (\<lambda>k. if k \<in> set (j # js) then wg ! i ! k + inp ! i * delta ! k else wg ! i ! k)
                    [0..<length (wg ! i)]])"
  proof -
    have "map (\<lambda>k. if k \<in> set js then ?wg ! i ! k + inp ! i * delta ! k else ?wg ! i ! k)
              [0..<length (?wg ! i)] =
          map (\<lambda>k. if k \<in> set (j # js) then wg ! i ! k + inp ! i * delta ! k else wg ! i ! k)
              [0..<length (wg ! i)]"
      using Cons.prems by (auto simp: nth_list_update)
    then show ?thesis by simp
  qed
  finally show ?case .
qed

lemma updateGrad_i_eq:
  "distinct is \<Longrightarrow> n \<le> length delta \<Longrightarrow>
   \<forall>i \<in> set is. i < length wg \<and> i < length inp \<and> n \<le> length (wg ! i) \<Longrightarrow>
   updateGrad_i inp delta n is wg =
     Inr (map (\<lambda>i. if i \<in> set is
                    then map (\<lambda>k. if k < n then wg ! i ! k + inp ! i * delta ! k else wg ! i ! k)
                           [0..<length (wg ! i)]
                    else wg ! i) [0..<length wg])"
proof (induction "is" arbitrary: wg)
  case Nil
  then show ?case by (simp add: map_nth)
next
  case (Cons i "is")
  let ?wg = "wg[i := map (\<lambda>k. if k \<in> set [0..<n] then wg ! i ! k + inp ! i * delta ! k else wg ! i ! k)
                    [0..<length (wg ! i)]]"
  have "updateGrad_j inp delta i [0..<n] wg = Inr ?wg"
    using Cons.prems by (intro updateGrad_j_eq) auto
  moreover have "updateGrad_i inp delta n is ?wg =
     Inr (map (\<lambda>i. if i \<in> set is
                    then map (\<lambda>k. if k < n then ?wg ! i ! k + inp ! i * delta ! k else ?wg ! i ! k)
                           [0..<length (?wg ! i)]
                    else ?wg ! i) [0..<length ?wg])"
    using Cons.prems by (intro Cons.IH) (auto simp: nth_list_update)
  ultimately show ?case
    using Cons.prems by (auto simp: nth_list_update)
qed

lemma updateParam_j_eq:
  "distinct js \<Longrightarrow> i < length wt \<Longrightarrow> i < length wg \<Longrightarrow>
   \<forall>j \<in> set js. j < length (wt ! i) \<and> j < length (wg ! i) \<Longrightarrow>
   updateParam_j lr c i js (wt, wg) =
     Inr (wt[i := map (\<lambda>k. if k \<in> set js then wt ! i ! k - wg ! i ! k * lr / real (unat c) else wt ! i ! k)
                    [0..<length (wt ! i)]],
          wg[i := map (\<lambda>k. if k \<in> set js then 0 else wg ! i ! k) [0..<length (wg ! i)]])"
proof (induction js arbitrary: wt wg)
  case Nil
  then show ?case by (simp add: map_nth)
next
  case (Cons j js)
  let ?wt = "wt[i := (wt ! i)[j := wt ! i ! j - wg ! i ! j * lr / real (unat c)]]"
  let ?wg = "wg[i := (wg ! i)[j := 0]]"
  have "updateParam_j lr c i (j # js) (wt, wg) = updateParam_j lr c i js (?wt, ?wg)"
    using Cons.prems by simp
  also have "\<dots> =
     Inr (?wt[i := map (\<lambda>k. if k \<in> set js then ?wt ! i ! k - ?wg ! i ! k * lr / real (unat c) else ?wt ! i ! k)
                    [0..<length (?wt ! i)]],
          ?wg[i := map (\<lambda>k. if k \<in> set js then 0 else ?wg ! i ! k) [0..<length (?wg ! i)]])"
    using Cons.prems by (intro Cons.IH) simp_all
  also have "\<dots> =
     Inr (wt[i := map (\<lambda>k. if k \<in> set (j # js) then wt ! i ! k - wg ! i ! k * lr / real (unat c) else wt ! i ! k)
                    [0..<length (wt ! i)]],
          wg[i := map (\<lambda>k. if k \<in> set (j # js) then 0 else wg ! i ! k) [0..<length (wg ! i)]])"
  proof -
    have "map (\<lambda>k. if k \<in> set js then ?wt ! i ! k - ?wg ! i ! k * lr / real (unat c) else ?wt ! i ! k)
                    [0..<length (?wt ! i)] =
          map (\<lambda>k. if k \<in> set (j # js) then wt ! i ! k - wg ! i ! k * lr / real (unat c) else wt ! i ! k)
                    [0..<length (wt ! i)]"
      using Cons.prems by (auto simp: nth_list_update)
    moreover have "map (\<lambda>k. if k \<in> set js then 0 else ?wg ! i ! k) [0..<length (?wg ! i)] =
          map (\<lambda>k. if k \<in> set (j # js) then 0 else wg ! i ! k) [0..<length (wg ! i)]"
      using Cons.prems by (auto simp: nth_list_update)
    ultimately show ?thesis by simp
  qed
  finally show ?case .
qed

lemma updateParam_i_eq:
  "distinct is \<Longrightarrow>
   \<forall>i \<in> set is. i < length wt \<and> i < length wg \<and> n \<le> length (wt ! i) \<and> n \<le> length (wg ! i) \<Longrightarrow>
   updateParam_i lr c n is (wt, wg) =
     Inr (map (\<lambda>i. if i \<in> set is
                    then map (\<lambda>k. if k < n then wt ! i ! k - wg ! i ! k * lr / real (unat c) else wt ! i ! k)
                           [0..<length (wt ! i)]
                    else wt ! i) [0..<length wt],
          map (\<lambda>i. if i \<in> set is
                    then map (\<lambda>k. if k < n then 0 else wg ! i ! k) [0..<length (wg ! i)]
                    else wg ! i) [0..<length wg])"
proof (induction "is" arbitrary: wt wg)
  case Nil
  then show ?case by (simp add: map_nth)
next
  case (Cons i "is")
  let ?wt = "wt[i := map (\<lambda>k. if k \<in> set [0..<n] then wt ! i ! k - wg ! i ! k * lr / real (unat c) else wt ! i ! k)
                    [0..<length (wt ! i)]]"
  let ?wg = "wg[i := map (\<lambda>k. if k \<in> set [0..<n] then 0 else wg ! i ! k) [0..<length (wg ! i)]]"
  have "updateParam_j lr c i [0..<n] (wt, wg) = Inr (?wt, ?wg)"
    using Cons.prems by (intro updateParam_j_eq) auto
  moreover have "updateParam_i lr c n is (?wt, ?wg) =
     Inr (map (\<lambda>i. if i \<in> set is
                    then map (\<lambda>k. if k < n then ?wt ! i ! k - ?wg ! i ! k * lr / real (unat c) else ?wt ! i ! k)
                           [0..<length (?wt ! i)]
                    else ?wt ! i) [0..<length ?wt],
          map (\<lambda>i. if i \<in> set is
                    then map (\<lambda>k. if k < n then 0 else ?wg ! i ! k) [0..<length (?wg ! i)]
                    else ?wg ! i) [0..<length ?wg])"
    using Cons.prems by (intro Cons.IH) (auto simp: nth_list_update)
  ultimately show ?case
    using Cons.prems by (auto simp: nth_list_update)
qed

subsection \<open>The member functions of Layer in closed form\<close>

lemma Layer_calcDelta_eq:
  assumes "length (l_u l) = l_outSize l" and "l_outSize l \<le> length nextW"
    and "\<forall>j<l_outSize l. length (nextW ! j) = length nextDelta"
  shows "Layer_calcDelta l nextDelta nextW =
     Inr (map (\<lambda>j. Activation_gradient (l_activation l) (l_u l) ! j *
                     (\<Sum>k<length nextDelta. nextDelta ! k * nextW ! j ! k)) [0..<l_outSize l], l)"
proof -
  let ?grad = "Activation_gradient (l_activation l) (l_u l)"
  let ?d0 = "replicate (l_outSize l) (0::real)"
  have "calcDelta_j nextDelta nextW ?grad [0..<l_outSize l] ?d0 =
     Inr (map (\<lambda>j. if j \<in> set [0..<l_outSize l]
                    then ?d0 ! j + (\<Sum>k\<leftarrow>[0..<length (nextW ! j)]. nextDelta ! k * nextW ! j ! k * ?grad ! j)
                    else ?d0 ! j) [0..<length ?d0])"
    using assms by (intro calcDelta_j_eq) auto
  also have "\<dots> = Inr (map (\<lambda>j. ?grad ! j * (\<Sum>k<length nextDelta. nextDelta ! k * nextW ! j ! k))
                         [0..<l_outSize l])"
    using assms
    by (auto simp: interv_sum_list_conv_sum_set_nat atLeast0LessThan sum_distrib_left mult.commute)
  finally show ?thesis
    by (simp add: Layer_calcDelta_def)
qed

lemma Layer_updateGrad_eq:
  assumes "Layer_inv l" and "l_outSize l \<le> length delta"
  shows "Layer_updateGrad l delta =
     Inr (l\<lparr>l_w_grad := map (\<lambda>i. map (\<lambda>j. l_w_grad l ! i ! j + l_input l ! i * delta ! j)
                                    [0..<l_outSize l]) [0..<l_inSize l],
            l_sampleCount := l_sampleCount l + 1\<rparr>)"
proof -
  have "updateGrad_i (l_input l) delta (l_outSize l) [0..<l_inSize l] (l_w_grad l) =
     Inr (map (\<lambda>i. if i \<in> set [0..<l_inSize l]
                    then map (\<lambda>k. if k < l_outSize l
                                   then l_w_grad l ! i ! k + l_input l ! i * delta ! k
                                   else l_w_grad l ! i ! k)
                           [0..<length (l_w_grad l ! i)]
                    else l_w_grad l ! i) [0..<length (l_w_grad l)])"
    using assms by (intro updateGrad_i_eq) (auto simp: Layer_inv_def)
  also have "\<dots> = Inr (map (\<lambda>i. map (\<lambda>j. l_w_grad l ! i ! j + l_input l ! i * delta ! j)
                                    [0..<l_outSize l]) [0..<l_inSize l])"
    using assms by (auto simp: Layer_inv_def)
  finally show ?thesis
    by (simp add: Layer_updateGrad_def)
qed

lemma Layer_updateParam_eq:
  assumes "Layer_inv l" and "l_sampleCount l \<noteq> 0"
  shows "Layer_updateParam l lr =
     Inr (l\<lparr>l_w := map (\<lambda>i. map (\<lambda>j. l_w l ! i ! j -
                                      l_w_grad l ! i ! j * lr / real (unat (l_sampleCount l)))
                               [0..<l_outSize l]) [0..<l_inSize l],
            l_w_grad := map (\<lambda>i. map (\<lambda>j. 0) [0..<l_outSize l]) [0..<l_inSize l],
            l_sampleCount := 0\<rparr>)"
proof -
  let ?c = "l_sampleCount l"
  have "updateParam_i lr ?c (l_outSize l) [0..<l_inSize l] (l_w l, l_w_grad l) =
     Inr (map (\<lambda>i. if i \<in> set [0..<l_inSize l]
                    then map (\<lambda>k. if k < l_outSize l
                                   then l_w l ! i ! k - l_w_grad l ! i ! k * lr / real (unat ?c)
                                   else l_w l ! i ! k)
                           [0..<length (l_w l ! i)]
                    else l_w l ! i) [0..<length (l_w l)],
          map (\<lambda>i. if i \<in> set [0..<l_inSize l]
                    then map (\<lambda>k. if k < l_outSize l then 0 else l_w_grad l ! i ! k)
                           [0..<length (l_w_grad l ! i)]
                    else l_w_grad l ! i) [0..<length (l_w_grad l)])"
    using assms by (intro updateParam_i_eq) (auto simp: Layer_inv_def)
  also have "\<dots> =
     Inr (map (\<lambda>i. map (\<lambda>j. l_w l ! i ! j - l_w_grad l ! i ! j * lr / real (unat ?c))
                     [0..<l_outSize l]) [0..<l_inSize l],
          map (\<lambda>i. map (\<lambda>j. 0) [0..<l_outSize l]) [0..<l_inSize l])"
    using assms by (auto simp: Layer_inv_def)
  finally show ?thesis
    using assms by (simp add: Layer_updateParam_def)
qed

lemma Layer_ctor_inv: "Layer_inv (Layer_ctor inSz outSz a rand)"
  by (auto simp: Layer_inv_def Layer_ctor_def)

lemma Layer_forward_inv:
  assumes "Layer_inv l" and "length x + 1 = l_inSize l" and "Layer_forward l x = Inr (out, l')"
  shows "Layer_inv l'"
  using assms(3) unfolding Layer_forward_eq [OF assms(1,2)]
  using assms(1,2) by (auto simp: Layer_inv_def Let_def)

lemma Layer_updateGrad_inv:
  assumes "Layer_inv l" and "l_outSize l \<le> length delta" and "Layer_updateGrad l delta = Inr l'"
  shows "Layer_inv l'"
  using assms(3) unfolding Layer_updateGrad_eq [OF assms(1,2)]
  using assms(1,2) by (auto simp: Layer_inv_def)

lemma Layer_updateParam_inv:
  assumes "Layer_inv l" and "Layer_updateParam l lr = Inr l'"
  shows "Layer_inv l'"
proof (cases "l_sampleCount l = 0")
  case True
  then show ?thesis using assms by (simp add: Layer_updateParam_def)
next
  case False
  show ?thesis
    using assms(2) unfolding Layer_updateParam_eq [OF assms(1) False]
    using assms(1) by (auto simp: Layer_inv_def)
qed

subsection \<open>The invariant along a forward pass\<close>

lemma Layer_forward_sizes:
  assumes "Layer_forward l x = Inr (out, l')"
  shows "l_inSize l' = l_inSize l" and "l_outSize l' = l_outSize l"
  using assms by (auto simp: Layer_forward_def Let_def split: sum.splits)

lemma Layer_forward_returns:
  assumes "Layer_inv l" and "length x + 1 = l_inSize l"
  shows "\<exists>out l'. Layer_forward l x = Inr (out, l') \<and> length out = l_outSize l"
  unfolding Layer_forward_eq [OF assms] by (simp add: Let_def)

lemma forward_layers_inv:
  assumes "list_all Layer_inv ls" and "chained ls" and "ls \<noteq> []"
    and "length x + 1 = l_inSize (hd ls)"
  shows "\<exists>res ls'. forward_layers ls x = Inr (res, ls') \<and>
           list_all Layer_inv ls' \<and> chained ls' \<and>
           map l_inSize ls' = map l_inSize ls \<and> map l_outSize ls' = map l_outSize ls \<and>
           length res = l_outSize (last ls)"
  using assms
proof (induction ls arbitrary: x rule: chained.induct)
  case 1
  then show ?case by simp
next
  case (2 l)
  then obtain out l' where fw: "Layer_forward l x = Inr (out, l')" and lo: "length out = l_outSize l"
    using Layer_forward_returns [of l x] by auto
  have "Layer_inv l'"
    using "2.prems" fw by (auto intro: Layer_forward_inv)
  then show ?case
    using fw lo Layer_forward_sizes [OF fw] by simp
next
  case (3 l l2 ls)
  then obtain out l' where fw: "Layer_forward l x = Inr (out, l')" and lo: "length out = l_outSize l"
    using Layer_forward_returns [of l x] by auto
  have inv': "Layer_inv l'"
    using "3.prems" fw by (auto intro: Layer_forward_inv)
  have "\<exists>res ls'. forward_layers (l2 # ls) out = Inr (res, ls') \<and>
           list_all Layer_inv ls' \<and> chained ls' \<and>
           map l_inSize ls' = map l_inSize (l2 # ls) \<and> map l_outSize ls' = map l_outSize (l2 # ls) \<and>
           length res = l_outSize (last (l2 # ls))"
    using "3.prems" lo by (intro "3.IH") simp_all
  then obtain res ls' where
    r: "forward_layers (l2 # ls) out = Inr (res, ls')" and
    i: "list_all Layer_inv ls'" and c: "chained ls'" and
    si: "map l_inSize ls' = map l_inSize (l2 # ls)" and
    so: "map l_outSize ls' = map l_outSize (l2 # ls)" and
    lr: "length res = l_outSize (last (l2 # ls))"
    by blast
  from si obtain l2' ls'' where ls': "ls' = l2' # ls''" and "l_inSize l2' = l_inSize l2"
    by (cases ls') auto
  then have "chained (l' # ls')"
    using c "3.prems"(2) Layer_forward_sizes [OF fw] by simp
  then show ?case
    using fw r i inv' si so lr Layer_forward_sizes [OF fw] by simp
qed

lemma Network_forward_inv:
  assumes "Network_inv net" and "n_layers net \<noteq> []"
    and "length x + 1 = l_inSize (hd (n_layers net))"
  shows "\<exists>res net'. Network_forward net x = Inr (res, net') \<and> Network_inv net' \<and>
           length res = l_outSize (last (n_layers net))"
proof -
  from forward_layers_inv [of "n_layers net" x] assms obtain res ls' where
    "forward_layers (n_layers net) x = Inr (res, ls')" "list_all Layer_inv ls'" "chained ls'"
    "length res = l_outSize (last (n_layers net))"
    by (auto simp: Network_inv_def)
  then show ?thesis
    by (simp add: Network_forward_def Network_inv_def)
qed

subsection \<open>Evaluation at numerals\<close>

lemma upt_0_2: "[0..<2] = [0, 1]"
  by (simp add: upt_rec numeral_2_eq_2)

lemma upt_0_3: "[0..<3] = [0, 1, 2]"
  by (simp add: upt_rec numeral_3_eq_3)

lemma list_update_Cons_numeral: "(x # xs)[numeral v := y] = x # xs[numeral v - 1 := y]"
  by (simp add: numeral_eq_Suc)

lemma replicate_numeral: "replicate (numeral k) x = x # replicate (pred_numeral k) x"
  by (simp add: numeral_eq_Suc)

subsection \<open>The concrete layer, evaluated\<close>

lemma example_layer_eq:
  "example_layer =
     \<lparr> l_inSize = 3, l_outSize = 2, l_sampleCount = 0,
       l_w = [[0, 1 / 18], [1 / 9, 1 / 6], [2 / 9, 5 / 18]],
       l_w_grad = [[0, 0], [0, 0], [0, 0]],
       l_input = [0, 0, 0], l_u = [0, 0], l_output = [0, 0],
       l_activation = RELU \<rparr>"
  by (simp add: example_layer_def Layer_ctor_def upt_rec numeral_2_eq_2 numeral_3_eq_3)

lemma example_forward:
  "Layer_forward example_layer [1, -1] =
     Inr ([1 / 9, 1 / 6],
       example_layer\<lparr>l_input := [1, -1, 1], l_u := [1 / 9, 1 / 6], l_output := [1 / 9, 1 / 6]\<rparr>)"
  by (simp add: example_layer_eq Layer_forward_def upt_rec numeral_2_eq_2 numeral_3_eq_3
        ReLu_activation_def Let_def)

lemma example_forwarded_eq:
  "example_forwarded =
     \<lparr> l_inSize = 3, l_outSize = 2, l_sampleCount = 0,
       l_w = [[0, 1 / 18], [1 / 9, 1 / 6], [2 / 9, 5 / 18]],
       l_w_grad = [[0, 0], [0, 0], [0, 0]],
       l_input = [1, -1, 1], l_u = [1 / 9, 1 / 6], l_output = [1 / 9, 1 / 6],
       l_activation = RELU \<rparr>"
  by (simp add: example_forwarded_def example_forward) (simp add: example_layer_eq)

lemma example_accumulated_eq:
  "example_accumulated =
     \<lparr> l_inSize = 3, l_outSize = 2, l_sampleCount = 1,
       l_w = [[0, 1 / 18], [1 / 9, 1 / 6], [2 / 9, 5 / 18]],
       l_w_grad = [[1, 2], [-1, -2], [1, 2]],
       l_input = [1, -1, 1], l_u = [1 / 9, 1 / 6], l_output = [1 / 9, 1 / 6],
       l_activation = RELU \<rparr>"
  by (simp add: example_accumulated_def example_forwarded_eq Layer_updateGrad_def upt_rec
        numeral_2_eq_2 numeral_3_eq_3)

subsection \<open>Rounding to double\<close>

lemma rd_eval:
  assumes "2 powr of_int e \<le> \<bar>x\<bar>" and "\<bar>x\<bar> < 2 powr (of_int e + 1)" and "- 1022 \<le> e"
  shows "rd x = 2 powr (of_int e - 52) * of_int (rhe (x / 2 powr (of_int e - 52)))"
proof -
  have "0 < \<bar>x\<bar>"
  proof -
    have "0 < (2::real) powr of_int e" by simp
    with assms(1) show ?thesis by linarith
  qed
  then have "\<lfloor>log 2 \<bar>x\<bar>\<rfloor> = e"
    using assms(1,2) by (simp add: floor_log_eq_powr_iff)
  then show ?thesis
    using assms(3) by (simp add: rd_def Let_def max_def)
qed

lemmas rd_rules =
  rd_eval [of "- 4"] rd_eval [of "- 3"] rd_eval [of "- 2"] rd_eval [of "- 1"]
  rd_eval [of 0] rd_eval [of 1] rd_eval [of 2]

lemma rd_0: "rd 0 = 0"
  by (simp add: rd_def rhe_def Let_def)

lemma rd_1: "rd 1 = 1"
  using rd_eval [of 0 1] by (simp add: rhe_def Let_def powr_neg_numeral)

lemma rd_2: "rd 2 = 2"
  using rd_eval [of 1 2] by (simp add: rhe_def Let_def powr_neg_numeral)

lemma rd_3: "rd 3 = 3"
  using rd_eval [of 1 3] by (simp add: rhe_def Let_def powr_neg_numeral)

lemma rd_third: "rd (1 / 3) = 6004799503160661 / 2 ^ 54"
  using rd_eval [of "- 2" "1 / 3"] by (simp add: rhe_def Let_def powr_neg_numeral)

lemma rd_tenth: "rd (1 / 10) = 3602879701896397 / 2 ^ 55"
  by (simp add: rd_rules rhe_def Let_def powr_neg_numeral)

lemma rhe_small:
  assumes "\<bar>y\<bar> < 1 / 2"
  shows "rhe y = 0"
proof (cases "0 \<le> y")
  case True
  with assms have "\<lfloor>y\<rfloor> = 0" by (simp add: floor_eq_iff)
  with assms True show ?thesis by (simp add: rhe_def)
next
  case False
  with assms have "\<lfloor>y\<rfloor> = - 1" by (simp add: floor_eq_iff)
  with assms False show ?thesis by (simp add: rhe_def)
qed

lemma rd_tiny:
  assumes "\<bar>x\<bar> < 2 powr (- 1075)"
  shows "rd x = 0"
proof (cases "x = 0")
  case True
  then show ?thesis by (simp add: rd_0)
next
  case False
  then have pos: "0 < \<bar>x\<bar>" by simp
  have "\<bar>x\<bar> < 2 powr (of_int (- 1075))"
    using assms by simp
  then have "log 2 \<bar>x\<bar> < of_int (- 1075)"
    using pos by (simp add: log_less_iff)
  then have "\<lfloor>log 2 \<bar>x\<bar>\<rfloor> < - 1022"
    by (simp add: floor_less_iff)
  then have e: "max \<lfloor>log 2 \<bar>x\<bar>\<rfloor> (- 1022) = - 1022"
    by simp
  have "\<bar>x / 2 powr (- 1074)\<bar> = \<bar>x\<bar> / 2 powr (- 1074)"
    by simp
  also have "\<dots> < 2 powr (- 1075) / 2 powr (- 1074)"
    using assms by (simp add: divide_strict_right_mono)
  also have "\<dots> = 2 powr (- 1075 - (- 1074))"
    by (simp only: powr_diff)
  also have "\<dots> = 1 / 2"
    by (simp add: powr_neg_numeral)
  finally have "rhe (x / 2 powr (- 1074)) = 0"
    by (rule rhe_small)
  then show ?thesis
    unfolding rd_def Let_def e by simp
qed

lemma exp_1000_big: "2 ^ 1075 < exp (1000 :: real)"
proof -
  have "(5 :: real) \<le> exp 2"
    using exp_lower_Taylor_quadratic [of "2 :: real"] by simp
  then have "(5 :: real) ^ 500 \<le> exp 2 ^ 500"
    by (intro power_mono) simp_all
  also have "\<dots> = exp (real 500 * 2)"
    by (simp only: exp_of_nat_mult)
  finally have "(5 :: real) ^ 500 \<le> exp 1000"
    by simp
  moreover have "(2 :: real) ^ 1075 < 5 ^ 500"
    by simp
  ultimately show ?thesis
    by linarith
qed

lemma rd_exp_underflow: "rd (exp (- 1000)) = 0"
proof -
  have "exp (- 1000 :: real) = 1 / exp 1000"
    by (simp add: exp_minus inverse_eq_divide)
  also have "\<dots> < 1 / 2 ^ 1075"
    using exp_1000_big by (intro divide_strict_left_mono) simp_all
  also have "\<dots> = 2 powr (- 1075)"
    by (simp add: powr_neg_numeral)
  finally show ?thesis
    by (intro rd_tiny) simp
qed

subsection \<open>Softmax in double, evaluated\<close>

lemma Softmax_double_one: "Softmax_activation_S double_arith [0] = [1]"
  by (simp add: Softmax_activation_S_def double_arith_def rd_0 rd_1)

lemma Softmax_double_underflow:
  "Softmax_activation_S double_arith [- 1000, 0] = [0, 1]"
  by (simp add: Softmax_activation_S_def double_arith_def rd_exp_underflow rd_0 rd_1)

lemma Softmax_double_thirds:
  "Softmax_activation_S double_arith [0, 0, 0] =
     [6004799503160661 / 2 ^ 54, 6004799503160661 / 2 ^ 54, 6004799503160661 / 2 ^ 54]"
  by (simp add: Softmax_activation_S_def double_arith_def rd_0 rd_1 rd_2 rd_3 rd_third)

subsection \<open>The exact arithmetic gives the definitions over the reals\<close>

lemma updateGrad_j_S_exact: "updateGrad_j_S exact_arith inp delta i js wg = updateGrad_j inp delta i js wg"
  by (induction js arbitrary: wg) (simp_all add: exact_arith_def)

lemma updateGrad_i_S_exact: "updateGrad_i_S exact_arith inp delta n is wg = updateGrad_i inp delta n is wg"
  by (induction "is" arbitrary: wg) (simp_all add: updateGrad_j_S_exact split: sum.splits)

lemma Layer_updateGrad_S_exact:
  "Layer_updateGrad_S exact_arith (to_S l) delta =
     (case Layer_updateGrad l delta of Inl e \<Rightarrow> Inl e | Inr l' \<Rightarrow> Inr (to_S l'))"
  by (simp add: Layer_updateGrad_S_def Layer_updateGrad_def updateGrad_i_S_exact to_S_def
        split: sum.splits)

lemma updateParam_j_S_exact:
  "updateParam_j_S exact_arith lr c i js ws = updateParam_j lr c i js ws"
proof (induction js arbitrary: ws)
  case Nil
  then show ?case by (cases ws) simp
next
  case (Cons j js)
  then show ?case by (cases ws) (simp add: exact_arith_def)
qed

lemma updateParam_i_S_exact:
  "updateParam_i_S exact_arith lr c n is ws = updateParam_i lr c n is ws"
  by (induction "is" arbitrary: ws) (simp_all add: updateParam_j_S_exact split: sum.splits)

lemma Layer_updateParam_S_exact:
  "Layer_updateParam_S exact_arith (to_S l) lr =
     (case Layer_updateParam l lr of Inl e \<Rightarrow> Inl e | Inr l' \<Rightarrow> Inr (to_S l'))"
  by (simp add: Layer_updateParam_S_def Layer_updateParam_def updateParam_i_S_exact to_S_def
        split: sum.splits prod.splits)

lemma Softmax_activation_S_exact: "Softmax_activation_S exact_arith xs = Softmax_activation xs"
  by (simp add: Softmax_activation_S_def Softmax_activation_def exact_arith_def)

lemma LayerS_inv_to_S: "LayerS_inv (to_S l) \<longleftrightarrow> Layer_inv l"
  by (simp add: LayerS_inv_def Layer_inv_def to_S_def)

subsection \<open>Accumulation in closed form, in any arithmetic\<close>

lemma updateGrad_j_S_eq:
  "distinct js \<Longrightarrow> i < length wg \<Longrightarrow> i < length inp \<Longrightarrow>
   \<forall>j \<in> set js. j < length (wg ! i) \<and> j < length delta \<Longrightarrow>
   updateGrad_j_S A inp delta i js wg =
     Inr (wg[i := map (\<lambda>k. if k \<in> set js
                           then a_add A (wg ! i ! k) (a_mul A (inp ! i) (delta ! k))
                           else wg ! i ! k)
                    [0..<length (wg ! i)]])"
proof (induction js arbitrary: wg)
  case Nil
  then show ?case by (simp add: map_nth)
next
  case (Cons j js)
  let ?wg = "wg[i := (wg ! i)[j := a_add A (wg ! i ! j) (a_mul A (inp ! i) (delta ! j))]]"
  have "updateGrad_j_S A inp delta i (j # js) wg = updateGrad_j_S A inp delta i js ?wg"
    using Cons.prems by simp
  also have "\<dots> = Inr (?wg[i := map (\<lambda>k. if k \<in> set js
                           then a_add A (?wg ! i ! k) (a_mul A (inp ! i) (delta ! k))
                           else ?wg ! i ! k)
                    [0..<length (?wg ! i)]])"
    using Cons.prems by (intro Cons.IH) simp_all
  also have "\<dots> = Inr (wg[i := map (\<lambda>k. if k \<in> set (j # js)
                           then a_add A (wg ! i ! k) (a_mul A (inp ! i) (delta ! k))
                           else wg ! i ! k)
                    [0..<length (wg ! i)]])"
  proof -
    have "map (\<lambda>k. if k \<in> set js
                           then a_add A (?wg ! i ! k) (a_mul A (inp ! i) (delta ! k))
                           else ?wg ! i ! k)
              [0..<length (?wg ! i)] =
          map (\<lambda>k. if k \<in> set (j # js)
                           then a_add A (wg ! i ! k) (a_mul A (inp ! i) (delta ! k))
                           else wg ! i ! k)
              [0..<length (wg ! i)]"
      using Cons.prems by (auto simp: nth_list_update)
    then show ?thesis by simp
  qed
  finally show ?case .
qed

lemma updateGrad_i_S_eq:
  "distinct is \<Longrightarrow> n \<le> length delta \<Longrightarrow>
   \<forall>i \<in> set is. i < length wg \<and> i < length inp \<and> n \<le> length (wg ! i) \<Longrightarrow>
   updateGrad_i_S A inp delta n is wg =
     Inr (map (\<lambda>i. if i \<in> set is
                    then map (\<lambda>k. if k < n
                                   then a_add A (wg ! i ! k) (a_mul A (inp ! i) (delta ! k))
                                   else wg ! i ! k)
                           [0..<length (wg ! i)]
                    else wg ! i) [0..<length wg])"
proof (induction "is" arbitrary: wg)
  case Nil
  then show ?case by (simp add: map_nth)
next
  case (Cons i "is")
  let ?wg = "wg[i := map (\<lambda>k. if k \<in> set [0..<n]
                              then a_add A (wg ! i ! k) (a_mul A (inp ! i) (delta ! k))
                              else wg ! i ! k)
                    [0..<length (wg ! i)]]"
  have "updateGrad_j_S A inp delta i [0..<n] wg = Inr ?wg"
    using Cons.prems by (intro updateGrad_j_S_eq) auto
  moreover have "updateGrad_i_S A inp delta n is ?wg =
     Inr (map (\<lambda>i. if i \<in> set is
                    then map (\<lambda>k. if k < n
                                   then a_add A (?wg ! i ! k) (a_mul A (inp ! i) (delta ! k))
                                   else ?wg ! i ! k)
                           [0..<length (?wg ! i)]
                    else ?wg ! i) [0..<length ?wg])"
    using Cons.prems by (intro Cons.IH) (auto simp: nth_list_update)
  ultimately show ?case
    using Cons.prems by (auto simp: nth_list_update)
qed

lemma Layer_updateGrad_S_eq:
  assumes "LayerS_inv l" and "s_outSize l \<le> length delta"
  shows "Layer_updateGrad_S A l delta =
     Inr (l\<lparr>s_w_grad := map (\<lambda>i. map (\<lambda>j. a_add A (s_w_grad l ! i ! j)
                                              (a_mul A (s_input l ! i) (delta ! j)))
                                    [0..<s_outSize l]) [0..<s_inSize l],
            s_sampleCount := s_sampleCount l + 1\<rparr>)"
proof -
  have "updateGrad_i_S A (s_input l) delta (s_outSize l) [0..<s_inSize l] (s_w_grad l) =
     Inr (map (\<lambda>i. if i \<in> set [0..<s_inSize l]
                    then map (\<lambda>k. if k < s_outSize l
                                   then a_add A (s_w_grad l ! i ! k) (a_mul A (s_input l ! i) (delta ! k))
                                   else s_w_grad l ! i ! k)
                           [0..<length (s_w_grad l ! i)]
                    else s_w_grad l ! i) [0..<length (s_w_grad l)])"
    using assms by (intro updateGrad_i_S_eq) (auto simp: LayerS_inv_def)
  also have "\<dots> = Inr (map (\<lambda>i. map (\<lambda>j. a_add A (s_w_grad l ! i ! j)
                                              (a_mul A (s_input l ! i) (delta ! j)))
                                    [0..<s_outSize l]) [0..<s_inSize l])"
    using assms by (auto simp: LayerS_inv_def)
  finally show ?thesis
    by (simp add: Layer_updateGrad_S_def)
qed

lemma updateParam_j_S_eq:
  "distinct js \<Longrightarrow> i < length wt \<Longrightarrow> i < length wg \<Longrightarrow>
   \<forall>j \<in> set js. j < length (wt ! i) \<and> j < length (wg ! i) \<Longrightarrow>
   updateParam_j_S A lr c i js (wt, wg) =
     Inr (wt[i := map (\<lambda>k. if k \<in> set js
                           then a_sub A (wt ! i ! k) (a_div A (a_mul A (wg ! i ! k) lr) (a_of_size A c))
                           else wt ! i ! k)
                    [0..<length (wt ! i)]],
          wg[i := map (\<lambda>k. if k \<in> set js then a_zero A else wg ! i ! k) [0..<length (wg ! i)]])"
proof (induction js arbitrary: wt wg)
  case Nil
  then show ?case by (simp add: map_nth)
next
  case (Cons j js)
  let ?wt = "wt[i := (wt ! i)[j := a_sub A (wt ! i ! j)
                 (a_div A (a_mul A (wg ! i ! j) lr) (a_of_size A c))]]"
  let ?wg = "wg[i := (wg ! i)[j := a_zero A]]"
  have "updateParam_j_S A lr c i (j # js) (wt, wg) = updateParam_j_S A lr c i js (?wt, ?wg)"
    using Cons.prems by simp
  also have "\<dots> =
     Inr (?wt[i := map (\<lambda>k. if k \<in> set js
                           then a_sub A (?wt ! i ! k) (a_div A (a_mul A (?wg ! i ! k) lr) (a_of_size A c))
                           else ?wt ! i ! k)
                    [0..<length (?wt ! i)]],
          ?wg[i := map (\<lambda>k. if k \<in> set js then a_zero A else ?wg ! i ! k) [0..<length (?wg ! i)]])"
    using Cons.prems by (intro Cons.IH) simp_all
  also have "\<dots> =
     Inr (wt[i := map (\<lambda>k. if k \<in> set (j # js)
                           then a_sub A (wt ! i ! k) (a_div A (a_mul A (wg ! i ! k) lr) (a_of_size A c))
                           else wt ! i ! k)
                    [0..<length (wt ! i)]],
          wg[i := map (\<lambda>k. if k \<in> set (j # js) then a_zero A else wg ! i ! k) [0..<length (wg ! i)]])"
  proof -
    have "map (\<lambda>k. if k \<in> set js
                           then a_sub A (?wt ! i ! k) (a_div A (a_mul A (?wg ! i ! k) lr) (a_of_size A c))
                           else ?wt ! i ! k)
                    [0..<length (?wt ! i)] =
          map (\<lambda>k. if k \<in> set (j # js)
                           then a_sub A (wt ! i ! k) (a_div A (a_mul A (wg ! i ! k) lr) (a_of_size A c))
                           else wt ! i ! k)
                    [0..<length (wt ! i)]"
      using Cons.prems by (auto simp: nth_list_update)
    moreover have "map (\<lambda>k. if k \<in> set js then a_zero A else ?wg ! i ! k) [0..<length (?wg ! i)] =
          map (\<lambda>k. if k \<in> set (j # js) then a_zero A else wg ! i ! k) [0..<length (wg ! i)]"
      using Cons.prems by (auto simp: nth_list_update)
    ultimately show ?thesis by simp
  qed
  finally show ?case .
qed

lemma updateParam_i_S_eq:
  "distinct is \<Longrightarrow>
   \<forall>i \<in> set is. i < length wt \<and> i < length wg \<and> n \<le> length (wt ! i) \<and> n \<le> length (wg ! i) \<Longrightarrow>
   updateParam_i_S A lr c n is (wt, wg) =
     Inr (map (\<lambda>i. if i \<in> set is
                    then map (\<lambda>k. if k < n
                                   then a_sub A (wt ! i ! k) (a_div A (a_mul A (wg ! i ! k) lr) (a_of_size A c))
                                   else wt ! i ! k)
                           [0..<length (wt ! i)]
                    else wt ! i) [0..<length wt],
          map (\<lambda>i. if i \<in> set is
                    then map (\<lambda>k. if k < n then a_zero A else wg ! i ! k) [0..<length (wg ! i)]
                    else wg ! i) [0..<length wg])"
proof (induction "is" arbitrary: wt wg)
  case Nil
  then show ?case by (simp add: map_nth)
next
  case (Cons i "is")
  let ?wt = "wt[i := map (\<lambda>k. if k \<in> set [0..<n]
                              then a_sub A (wt ! i ! k) (a_div A (a_mul A (wg ! i ! k) lr) (a_of_size A c))
                              else wt ! i ! k)
                    [0..<length (wt ! i)]]"
  let ?wg = "wg[i := map (\<lambda>k. if k \<in> set [0..<n] then a_zero A else wg ! i ! k) [0..<length (wg ! i)]]"
  have "updateParam_j_S A lr c i [0..<n] (wt, wg) = Inr (?wt, ?wg)"
    using Cons.prems by (intro updateParam_j_S_eq) auto
  moreover have "updateParam_i_S A lr c n is (?wt, ?wg) =
     Inr (map (\<lambda>i. if i \<in> set is
                    then map (\<lambda>k. if k < n
                                   then a_sub A (?wt ! i ! k) (a_div A (a_mul A (?wg ! i ! k) lr) (a_of_size A c))
                                   else ?wt ! i ! k)
                           [0..<length (?wt ! i)]
                    else ?wt ! i) [0..<length ?wt],
          map (\<lambda>i. if i \<in> set is
                    then map (\<lambda>k. if k < n then a_zero A else ?wg ! i ! k) [0..<length (?wg ! i)]
                    else ?wg ! i) [0..<length ?wg])"
    using Cons.prems by (intro Cons.IH) (auto simp: nth_list_update)
  ultimately show ?case
    using Cons.prems by (auto simp: nth_list_update)
qed

lemma Layer_updateParam_S_eq:
  assumes "LayerS_inv l" and "s_sampleCount l \<noteq> 0"
  shows "Layer_updateParam_S A l lr =
     Inr (l\<lparr>s_w := map (\<lambda>i. map (\<lambda>j. a_sub A (s_w l ! i ! j)
                                     (a_div A (a_mul A (s_w_grad l ! i ! j) lr)
                                        (a_of_size A (s_sampleCount l))))
                               [0..<s_outSize l]) [0..<s_inSize l],
            s_w_grad := map (\<lambda>i. map (\<lambda>j. a_zero A) [0..<s_outSize l]) [0..<s_inSize l],
            s_sampleCount := 0\<rparr>)"
proof -
  let ?c = "s_sampleCount l"
  have "updateParam_i_S A lr ?c (s_outSize l) [0..<s_inSize l] (s_w l, s_w_grad l) =
     Inr (map (\<lambda>i. if i \<in> set [0..<s_inSize l]
                    then map (\<lambda>k. if k < s_outSize l
                                   then a_sub A (s_w l ! i ! k)
                                          (a_div A (a_mul A (s_w_grad l ! i ! k) lr) (a_of_size A ?c))
                                   else s_w l ! i ! k)
                           [0..<length (s_w l ! i)]
                    else s_w l ! i) [0..<length (s_w l)],
          map (\<lambda>i. if i \<in> set [0..<s_inSize l]
                    then map (\<lambda>k. if k < s_outSize l then a_zero A else s_w_grad l ! i ! k)
                           [0..<length (s_w_grad l ! i)]
                    else s_w_grad l ! i) [0..<length (s_w_grad l)])"
    using assms by (intro updateParam_i_S_eq) (auto simp: LayerS_inv_def)
  also have "\<dots> =
     Inr (map (\<lambda>i. map (\<lambda>j. a_sub A (s_w l ! i ! j)
                             (a_div A (a_mul A (s_w_grad l ! i ! j) lr) (a_of_size A ?c)))
                     [0..<s_outSize l]) [0..<s_inSize l],
          map (\<lambda>i. map (\<lambda>j. a_zero A) [0..<s_outSize l]) [0..<s_inSize l])"
    using assms by (auto simp: LayerS_inv_def)
  finally show ?thesis
    using assms by (simp add: Layer_updateParam_S_def)
qed

lemma funpow_accumulate:
  "((\<lambda>a. a_add A a g) ^^ n) (a_add A x g) = a_add A (((\<lambda>a. a_add A a g) ^^ n) x) g"
  by (induction n) simp_all

lemma updateGrad_times_eq:
  assumes "LayerS_inv l" and "s_outSize l \<le> length delta"
  shows "updateGrad_times A n l delta =
     Inr (l\<lparr>s_w_grad := map (\<lambda>i. map (\<lambda>j. ((\<lambda>a. a_add A a (a_mul A (s_input l ! i) (delta ! j))) ^^ n)
                                              (s_w_grad l ! i ! j))
                                    [0..<s_outSize l]) [0..<s_inSize l],
            s_sampleCount := s_sampleCount l + of_nat n\<rparr>)"
  using assms
proof (induction n arbitrary: l)
  case 0
  have "map (\<lambda>i. map (\<lambda>j. s_w_grad l ! i ! j) [0..<s_outSize l]) [0..<s_inSize l] = s_w_grad l"
    using "0.prems"(1) by (auto simp: LayerS_inv_def intro!: nth_equalityI)
  then show ?case by simp
next
  case (Suc n)
  let ?l1 = "l\<lparr>s_w_grad := map (\<lambda>i. map (\<lambda>j. a_add A (s_w_grad l ! i ! j)
                                              (a_mul A (s_input l ! i) (delta ! j)))
                                    [0..<s_outSize l]) [0..<s_inSize l],
               s_sampleCount := s_sampleCount l + 1\<rparr>"
  have step: "Layer_updateGrad_S A l delta = Inr ?l1"
    using Suc.prems by (rule Layer_updateGrad_S_eq)
  have inv1: "LayerS_inv ?l1"
    using Suc.prems(1) by (auto simp: LayerS_inv_def)
  have "updateGrad_times A n ?l1 delta =
     Inr (?l1\<lparr>s_w_grad := map (\<lambda>i. map (\<lambda>j. ((\<lambda>a. a_add A a (a_mul A (s_input ?l1 ! i) (delta ! j))) ^^ n)
                                              (s_w_grad ?l1 ! i ! j))
                                    [0..<s_outSize ?l1]) [0..<s_inSize ?l1],
            s_sampleCount := s_sampleCount ?l1 + of_nat n\<rparr>)"
    using inv1 Suc.prems(2) by (intro Suc.IH) simp_all
  also have "\<dots> = Inr (l\<lparr>s_w_grad := map (\<lambda>i. map (\<lambda>j. ((\<lambda>a. a_add A a (a_mul A (s_input l ! i) (delta ! j))) ^^ Suc n)
                                              (s_w_grad l ! i ! j))
                                    [0..<s_outSize l]) [0..<s_inSize l],
            s_sampleCount := s_sampleCount l + of_nat (Suc n)\<rparr>)"
  proof -
    have "map (\<lambda>i. map (\<lambda>j. ((\<lambda>a. a_add A a (a_mul A (s_input ?l1 ! i) (delta ! j))) ^^ n)
                                              (s_w_grad ?l1 ! i ! j))
                                    [0..<s_outSize ?l1]) [0..<s_inSize ?l1] =
          map (\<lambda>i. map (\<lambda>j. ((\<lambda>a. a_add A a (a_mul A (s_input l ! i) (delta ! j))) ^^ Suc n)
                                              (s_w_grad l ! i ! j))
                                    [0..<s_outSize l]) [0..<s_inSize l]"
      by (auto simp: funpow_accumulate)
    then show ?thesis
      by (simp add: algebra_simps)
  qed
  finally show ?case
    using step by simp
qed

lemma accumulate_then_update_eq:
  assumes "LayerS_inv l" and "s_outSize l \<le> length delta"
    and "s_sampleCount l = 0"
    and "s_w_grad l = replicate (s_inSize l) (replicate (s_outSize l) (a_zero A))"
    and "1 \<le> N" and "N < 2 ^ 64"
  shows "accumulate_then_update A N l delta learningRate =
     Inr (map (\<lambda>i. map (\<lambda>j. a_sub A (s_w l ! i ! j)
                (a_div A
                   (a_mul A (((\<lambda>a. a_add A a (a_mul A (s_input l ! i) (delta ! j))) ^^ N) (a_zero A))
                      learningRate)
                   (a_of_size A (of_nat N))))
            [0..<s_outSize l]) [0..<s_inSize l])"
proof -
  let ?lN = "l\<lparr>s_w_grad := map (\<lambda>i. map (\<lambda>j. ((\<lambda>a. a_add A a (a_mul A (s_input l ! i) (delta ! j))) ^^ N)
                                              (s_w_grad l ! i ! j))
                                    [0..<s_outSize l]) [0..<s_inSize l],
            s_sampleCount := s_sampleCount l + of_nat N\<rparr>"
  have acc: "updateGrad_times A N l delta = Inr ?lN"
    using assms(1,2) by (rule updateGrad_times_eq)
  have invN: "LayerS_inv ?lN"
    using assms(1) by (auto simp: LayerS_inv_def)
  have unat: "unat (of_nat N :: 64 word) = N"
    using assms(6) by (simp add: unat_of_nat)
  have "(of_nat N :: 64 word) \<noteq> 0"
  proof
    assume "(of_nat N :: 64 word) = 0"
    then have "unat (of_nat N :: 64 word) = 0" by simp
    with unat assms(5) show False by simp
  qed
  then have cnt: "s_sampleCount ?lN \<noteq> 0"
    using assms(3) by simp
  have "Layer_updateParam_S A ?lN learningRate =
     Inr (?lN\<lparr>s_w := map (\<lambda>i. map (\<lambda>j. a_sub A (s_w ?lN ! i ! j)
                                     (a_div A (a_mul A (s_w_grad ?lN ! i ! j) learningRate)
                                        (a_of_size A (s_sampleCount ?lN))))
                               [0..<s_outSize ?lN]) [0..<s_inSize ?lN],
            s_w_grad := map (\<lambda>i. map (\<lambda>j. a_zero A) [0..<s_outSize ?lN]) [0..<s_inSize ?lN],
            s_sampleCount := 0\<rparr>)"
    using invN cnt by (rule Layer_updateParam_S_eq)
  moreover have "map (\<lambda>i. map (\<lambda>j. a_sub A (s_w ?lN ! i ! j)
                                     (a_div A (a_mul A (s_w_grad ?lN ! i ! j) learningRate)
                                        (a_of_size A (s_sampleCount ?lN))))
                               [0..<s_outSize ?lN]) [0..<s_inSize ?lN] =
     map (\<lambda>i. map (\<lambda>j. a_sub A (s_w l ! i ! j)
                (a_div A
                   (a_mul A (((\<lambda>a. a_add A a (a_mul A (s_input l ! i) (delta ! j))) ^^ N) (a_zero A))
                      learningRate)
                   (a_of_size A (of_nat N))))
            [0..<s_outSize l]) [0..<s_inSize l]"
    using assms(3,4) by simp
  ultimately show ?thesis
    using acc by (simp add: accumulate_then_update_def)
qed

lemma funpow_add_exact: "((\<lambda>a. a + g) ^^ n) (x :: real) = x + real n * g"
  by (induction n) (simp_all add: algebra_simps)

lemma accumulate_then_update_exact:
  assumes "LayerS_inv l" and "s_outSize l \<le> length delta"
    and "s_sampleCount l = 0"
    and "s_w_grad l = replicate (s_inSize l) (replicate (s_outSize l) 0)"
    and "1 \<le> N" and "N < 2 ^ 64"
  shows "accumulate_then_update exact_arith N l delta learningRate =
     Inr (map (\<lambda>i. map (\<lambda>j. s_w l ! i ! j - learningRate * (s_input l ! i * delta ! j))
                     [0..<s_outSize l]) [0..<s_inSize l])"
proof -
  have z: "s_w_grad l = replicate (s_inSize l) (replicate (s_outSize l) (a_zero exact_arith))"
    using assms(4) by (simp add: exact_arith_def)
  have unat: "unat (of_nat N :: 64 word) = N"
    using assms(6) by (simp add: unat_of_nat)
  have u: "(unsigned (of_nat N :: 64 word) :: real) = real N"
    using unat by (metis of_nat_unat)
  show ?thesis
    unfolding accumulate_then_update_eq [OF assms(1,2,3) z assms(5,6)]
    using assms(5) u by (simp add: exact_arith_def funpow_add_exact)
qed

lemma funpow_3: "(f ^^ 3) x = f (f (f x))"
  by (simp add: numeral_3_eq_3)

subsection \<open>Accumulation in double and in exact arithmetic, evaluated\<close>

lemma example_bias_layer_eq:
  "example_bias_layer =
     \<lparr> s_inSize = 1, s_outSize = 1, s_sampleCount = 0, s_w = [[0]], s_w_grad = [[0]],
       s_input = [1], s_u = [0], s_output = [0], s_activation = RELU \<rparr>"
  by (simp add: example_bias_layer_def Layer_forward_def Layer_ctor_def to_S_def
        ReLu_activation_def Let_def)

lemma example_bias_accumulated_eq:
  "example_bias_accumulated =
     \<lparr> s_inSize = 1, s_outSize = 1, s_sampleCount = 1, s_w = [[0]], s_w_grad = [[1]],
       s_input = [1], s_u = [0], s_output = [0], s_activation = RELU \<rparr>"
  by (simp add: example_bias_accumulated_def example_bias_layer_eq Layer_updateGrad_S_def
        double_arith_def rd_1)

lemma updateGrad_times_numeral:
  "updateGrad_times A (numeral k) l delta =
     (case Layer_updateGrad_S A l delta of
        Inl e \<Rightarrow> Inl e
      | Inr l' \<Rightarrow> updateGrad_times A (pred_numeral k) l' delta)"
  by (simp add: numeral_eq_Suc)

lemma double_dirty_twice:
  "accumulate_then_update double_arith 2 example_bias_accumulated [3] 1 =
     Inr [[- (5254199565265579 / 2 ^ 51)]]"
  by (simp add: accumulate_then_update_def example_bias_accumulated_eq updateGrad_times_numeral
        Layer_updateGrad_S_def Layer_updateParam_S_def double_arith_def
        rd_rules rhe_def Let_def powr_neg_numeral)

lemma double_dirty_once:
  "accumulate_then_update double_arith 1 example_bias_accumulated [3] 1 = Inr [[- 2]]"
  by (simp add: accumulate_then_update_def example_bias_accumulated_eq
        Layer_updateGrad_S_def Layer_updateParam_S_def double_arith_def
        rd_rules rhe_def Let_def powr_neg_numeral)

lemma exact_dirty_twice:
  "accumulate_then_update exact_arith 2 example_bias_accumulated [3] 1 = Inr [[- (7 / 3)]]"
  by (simp add: accumulate_then_update_def example_bias_accumulated_eq updateGrad_times_numeral
        Layer_updateGrad_S_def Layer_updateParam_S_def exact_arith_def)

lemma exact_dirty_once:
  "accumulate_then_update exact_arith 1 example_bias_accumulated [3] 1 = Inr [[- 2]]"
  by (simp add: accumulate_then_update_def example_bias_accumulated_eq
        Layer_updateGrad_S_def Layer_updateParam_S_def exact_arith_def)

lemma double_tenth_thrice:
  "accumulate_then_update double_arith 3 example_bias_layer [3602879701896397 / 2 ^ 55] 1 =
     Inr [[- (7205759403792795 / 2 ^ 56)]]"
  by (simp add: accumulate_then_update_def example_bias_layer_eq updateGrad_times_numeral
        Layer_updateGrad_S_def Layer_updateParam_S_def double_arith_def
        rd_rules rhe_def Let_def powr_neg_numeral)

lemma double_tenth_once:
  "accumulate_then_update double_arith 1 example_bias_layer [3602879701896397 / 2 ^ 55] 1 =
     Inr [[- (7205759403792794 / 2 ^ 56)]]"
  by (simp add: accumulate_then_update_def example_bias_layer_eq
        Layer_updateGrad_S_def Layer_updateParam_S_def double_arith_def
        rd_rules rhe_def Let_def powr_neg_numeral)

subsection \<open>The concrete network, evaluated\<close>

lemma example_softmax_layer_eq:
  "Layer_ctor 2 2 SOFTMAX (\<lambda>k. 1 / 2) =
     \<lparr> l_inSize = 3, l_outSize = 2, l_sampleCount = 0,
       l_w = [[1 / 6, 1 / 6], [1 / 6, 1 / 6], [1 / 6, 1 / 6]],
       l_w_grad = [[0, 0], [0, 0], [0, 0]],
       l_input = [0, 0, 0], l_u = [0, 0], l_output = [0, 0],
       l_activation = SOFTMAX \<rparr>"
  by (simp add: Layer_ctor_def upt_0_2 upt_0_3 numeral_2_eq_2 numeral_3_eq_3)

lemma example_softmax_forward:
  "Layer_forward (Layer_ctor 2 2 SOFTMAX (\<lambda>k. 1 / 2)) [1 / 9, 1 / 6] =
     Inr ([1 / 2, 1 / 2],
       Layer_ctor 2 2 SOFTMAX (\<lambda>k. 1 / 2)
         \<lparr>l_input := [1 / 9, 1 / 6, 1], l_u := [23 / 108, 23 / 108], l_output := [1 / 2, 1 / 2]\<rparr>)"
  by (simp add: example_softmax_layer_eq Layer_forward_def upt_0_2 upt_0_3
        list_update_Cons_numeral Softmax_activation_def Let_def)

lemma example_network_forward:
  "Network_forward example_network [1, -1] =
     Inr ([1 / 2, 1 / 2],
       \<lparr> n_verbose = True,
         n_layers = [example_forwarded,
           Layer_ctor 2 2 SOFTMAX (\<lambda>k. 1 / 2)
             \<lparr>l_input := [1 / 9, 1 / 6, 1], l_u := [23 / 108, 23 / 108],
               l_output := [1 / 2, 1 / 2]\<rparr>] \<rparr>)"
  by (simp add: Network_forward_def example_network_def addLayer_def Network_ctor_def
        example_forward example_softmax_forward example_forwarded_def)

lemma example_network_forwarded_eq:
  "example_network_forwarded =
     \<lparr> n_verbose = True,
       n_layers = [example_forwarded,
         \<lparr> l_inSize = 3, l_outSize = 2, l_sampleCount = 0,
           l_w = [[1 / 6, 1 / 6], [1 / 6, 1 / 6], [1 / 6, 1 / 6]],
           l_w_grad = [[0, 0], [0, 0], [0, 0]],
           l_input = [1 / 9, 1 / 6, 1], l_u = [23 / 108, 23 / 108], l_output = [1 / 2, 1 / 2],
           l_activation = SOFTMAX \<rparr>] \<rparr>"
  by (simp add: example_network_forwarded_def example_network_forward example_softmax_layer_eq)

lemma example_network_backward:
  "Network_backward example_network_forwarded [0, 1] =
     Inr ([(1, [1 / 2, - 1 / 2]), (0, [0, 0])],
       \<lparr> n_verbose = True,
         n_layers = [example_forwarded\<lparr>l_sampleCount := 1\<rparr>,
         \<lparr> l_inSize = 3, l_outSize = 2, l_sampleCount = 1,
           l_w = [[1 / 6, 1 / 6], [1 / 6, 1 / 6], [1 / 6, 1 / 6]],
           l_w_grad = [[1 / 18, - 1 / 18], [1 / 12, - 1 / 12], [1 / 2, - 1 / 2]],
           l_input = [1 / 9, 1 / 6, 1], l_u = [23 / 108, 23 / 108], l_output = [1 / 2, 1 / 2],
           l_activation = SOFTMAX \<rparr>] \<rparr>)"
  by (simp add: example_network_forwarded_eq Network_backward_def Let_def upt_0_2 upt_0_3
        list_update_Cons_numeral replicate_numeral Layer_updateGrad_def Layer_calcDelta_def
        example_forwarded_eq Softmax_gradient_def ReLu_gradient_def)

lemma example_network_calcLoss:
  "Network_calcLoss example_network_forwarded [0, 1] = Inr (ln 2, example_network_forwarded)"
  by (simp add: example_network_forwarded_eq Network_calcLoss_def upt_0_2 ln_div)

lemma example_calcDelta:
  "Layer_calcDelta example_forwarded [1 / 2, - 1 / 2] [[1 / 6, 1 / 6], [1 / 6, 1 / 6], [1 / 6, 1 / 6]] =
     Inr ([0, 0], example_forwarded)"
  by (simp add: example_forwarded_eq Layer_calcDelta_def upt_0_2 list_update_Cons_numeral
        replicate_numeral ReLu_gradient_def Let_def)

lemma example_updateGrad:
  "Layer_updateGrad example_forwarded [1, 2] = Inr example_accumulated"
  by (simp add: example_accumulated_eq)
    (simp add: example_forwarded_eq Layer_updateGrad_def upt_0_2 upt_0_3 list_update_Cons_numeral)

subsection \<open>The loss loop in closed form\<close>

lemma calcLoss_loop_eq:
  "ls \<noteq> [] \<Longrightarrow>
   \<forall>i \<in> set is. i < length target \<and> i < length (l_output (last ls)) \<and> 0 < l_output (last ls) ! i \<Longrightarrow>
   calcLoss_loop ls target is loss =
     Inr (loss - (\<Sum>i\<leftarrow>is. target ! i * ln (l_output (last ls) ! i)))"
  by (induction "is" arbitrary: loss) (simp_all add: last_conv_nth algebra_simps)

lemma example_relu_network_eq:
  "example_relu_network =
     \<lparr> n_verbose = False,
       n_layers = [example_layer\<lparr>l_input := [-9, 1 / 4, 1], l_u := [1 / 4, - 13 / 72],
                                 l_output := [1 / 4, 0]\<rparr>] \<rparr>"
  by (simp add: example_relu_network_def Network_forward_def addLayer_def Network_ctor_def
        Layer_forward_def example_layer_eq upt_0_2 upt_0_3 list_update_Cons_numeral
        ReLu_activation_def Let_def)

lemma example_swish_network_eq:
  "example_swish_network =
     \<lparr> n_verbose = False,
       n_layers = [\<lparr> l_inSize = 2, l_outSize = 1, l_sampleCount = 0,
          l_w = [[1 / 4], [1 / 4]], l_w_grad = [[0], [0]],
          l_input = [-5, 1], l_u = [-1], l_output = [- (1 / (1 + exp (- 1)))],
          l_activation = SWISH \<rparr>] \<rparr>"
  by (simp add: example_swish_network_def Network_forward_def addLayer_def Network_ctor_def
        Layer_forward_def Layer_ctor_def upt_0_2 upt_rec [of 0 1] list_update_Cons_numeral
        Swish_activation_def swish_def sigmoid_def Let_def)

lemma calcLoss_loop_NonFinite:
  "ls \<noteq> [] \<Longrightarrow>
   \<forall>i \<in> set is. i < length target \<and> i < length (l_output (last ls)) \<Longrightarrow>
   \<exists>i \<in> set is. l_output (last ls) ! i \<le> 0 \<Longrightarrow>
   calcLoss_loop ls target is loss = Inl NonFinite"
  by (induction "is" arbitrary: loss) (auto simp: last_conv_nth)

subsection \<open>What leaves the weights alone\<close>

lemma Layer_forward_w: "Layer_forward l x = Inr (out, l') \<Longrightarrow> l_w l' = l_w l"
  by (auto simp: Layer_forward_def Let_def split: sum.splits)

lemma Layer_calcDelta_same: "Layer_calcDelta l nextDelta nextW = Inr (delta, l') \<Longrightarrow> l' = l"
  by (auto simp: Layer_calcDelta_def Let_def split: sum.splits)

lemma Layer_updateGrad_w: "Layer_updateGrad l delta = Inr l' \<Longrightarrow> l_w l' = l_w l"
  by (auto simp: Layer_updateGrad_def split: sum.splits)

lemma map_update_same: "(map f xs)[i := f (xs ! i)] = map f xs"
  by (metis list_update_id map_update)

lemma forward_layers_w:
  "forward_layers ls x = Inr (res, ls') \<Longrightarrow> map l_w ls' = map l_w ls"
proof (induction ls arbitrary: x res ls')
  case Nil
  then show ?case by simp
next
  case (Cons l ls)
  from Cons.prems obtain out l' rest' where
    fw: "Layer_forward l x = Inr (out, l')" and
    rest: "forward_layers ls out = Inr (res, rest')" and
    ls': "ls' = l' # rest'"
    by (auto split: sum.splits)
  show ?case
    using Layer_forward_w [OF fw] Cons.IH [OF rest] ls' by simp
qed

lemma backward_layers_w:
  "backward_layers v idx ls delta out = Inr (out', ls') \<Longrightarrow> map l_w ls' = map l_w ls"
proof (induction idx arbitrary: ls delta out)
  case Nil
  then show ?case by simp
next
  case (Cons l idx)
  from Cons.prems obtain delta' cl ul where
    cd: "Layer_calcDelta (ls ! l) delta (l_w (ls ! (l + 1))) = Inr (delta', cl)" and
    ug: "Layer_updateGrad cl delta' = Inr ul" and
    rest: "backward_layers v idx (ls[l := ul]) delta' (if v then out @ [(l, delta')] else out) =
             Inr (out', ls')" and
    len: "l + 1 < length ls"
    by (auto split: if_splits sum.splits)
  have "l_w ul = l_w (ls ! l)"
    using Layer_calcDelta_same [OF cd] Layer_updateGrad_w [OF ug] by simp
  then have "map l_w (ls[l := ul]) = map l_w ls"
    by (simp add: map_update map_update_same)
  with Cons.IH [OF rest] show ?case by simp
qed

lemma Network_backward_w:
  assumes "Network_backward net target = Inr (pr, net')"
  shows "map l_w (n_layers net') = map l_w (n_layers net)"
proof -
  let ?ls = "n_layers net"
  let ?n = "length ?ls"
  from assms obtain delta ll out ls' where
    ug: "Layer_updateGrad (?ls ! (?n - 1)) delta = Inr ll" and
    bl: "backward_layers (n_verbose net) (rev [0..<?n - 1]) (?ls[?n - 1 := ll]) delta out =
           Inr (pr, ls')" and
    net': "net' = net\<lparr>n_layers := ls'\<rparr>"
    by (auto simp: Network_backward_def Let_def split: if_splits sum.splits)
  have "map l_w (?ls[?n - 1 := ll]) = map l_w ?ls"
    using Layer_updateGrad_w [OF ug] by (simp add: map_update map_update_same)
  with backward_layers_w [OF bl] net' show ?thesis by simp
qed

subsection \<open>The backward pass in closed form\<close>

lemma chained_nth:
  "chained ls \<Longrightarrow> k + 1 < length ls \<Longrightarrow> l_inSize (ls ! (k + 1)) = l_outSize (ls ! k) + 1"
proof (induction ls arbitrary: k rule: chained.induct)
  case 1
  then show ?case by simp
next
  case (2 l)
  then show ?case by simp
next
  case (3 l l' ls)
  show ?case
  proof (cases k)
    case 0
    then show ?thesis using "3.prems" by simp
  next
    case (Suc j)
    then show ?thesis using "3.prems" "3.IH" [of j] by simp
  qed
qed

lemma backward_delta_eq:
  "distinct is \<Longrightarrow> \<forall>i \<in> set is. i < length delta \<and> i < length y \<and> i < length target \<Longrightarrow>
   backward_delta y target is delta =
     Inr (map (\<lambda>i. if i \<in> set is then y ! i - target ! i else delta ! i) [0..<length delta])"
proof (induction "is" arbitrary: delta)
  case Nil
  then show ?case by (simp add: map_nth)
next
  case (Cons i "is")
  let ?d = "delta[i := y ! i - target ! i]"
  have "backward_delta y target (i # is) delta = backward_delta y target is ?d"
    using Cons.prems by simp
  also have "\<dots> = Inr (map (\<lambda>i. if i \<in> set is then y ! i - target ! i else ?d ! i) [0..<length ?d])"
    using Cons.prems by (intro Cons.IH) simp_all
  also have "\<dots> = Inr (map (\<lambda>k. if k \<in> set (i # is) then y ! k - target ! k else delta ! k)
                         [0..<length delta])"
    using Cons.prems by (auto simp: nth_list_update)
  finally show ?case .
qed

lemma calcDelta_k_length:
  "calcDelta_k nextDelta nextW grad j ks delta = Inr delta' \<Longrightarrow> length delta' = length delta"
  by (induction ks arbitrary: delta) (auto split: if_splits)

lemma calcDelta_j_length:
  "calcDelta_j nextDelta nextW grad js delta = Inr delta' \<Longrightarrow> length delta' = length delta"
proof (induction js arbitrary: delta)
  case Nil
  then show ?case by simp
next
  case (Cons j js)
  from Cons.prems obtain d1 where
    k: "calcDelta_k nextDelta nextW grad j [0..<length (nextW ! j)] delta = Inr d1" and
    r: "calcDelta_j nextDelta nextW grad js d1 = Inr delta'"
    by (auto split: if_splits sum.splits)
  show ?case
    using Cons.IH [OF r] calcDelta_k_length [OF k] by simp
qed

lemma Layer_calcDelta_length:
  "Layer_calcDelta l nextDelta nextW = Inr (delta, l') \<Longrightarrow> length delta = l_outSize l"
  by (auto simp: Layer_calcDelta_def Let_def split: sum.splits dest: calcDelta_j_length)

lemma Layer_updateGrad_sizes:
  assumes "Layer_updateGrad l delta = Inr l'"
  shows "l_inSize l' = l_inSize l" and "l_outSize l' = l_outSize l"
    and "l_sampleCount l' = l_sampleCount l + 1"
  using assms by (auto simp: Layer_updateGrad_def split: sum.splits)

lemma backward_layers_eq:
  assumes "m < length ls"
    and "\<forall>k\<le>m. Layer_inv (ls ! k)"
    and "\<forall>k<m. l_inSize (ls ! (k + 1)) = l_outSize (ls ! k) + 1"
    and "length delta = l_outSize (ls ! m)"
  shows "\<exists>ds ls'.
      backward_layers v (rev [0..<m]) ls delta out =
        Inr (if v then out @ rev (zip [0..<m] ds) else out, ls') \<and>
      length ds = m \<and> length ls' = length ls \<and>
      (\<forall>k<length ls. m \<le> k \<longrightarrow> ls' ! k = ls ! k) \<and>
      (\<forall>k<m. Layer_calcDelta (ls ! k) ((ds @ [delta]) ! (k + 1)) (l_w (ls ! (k + 1))) =
                 Inr (ds ! k, ls ! k) \<and>
              Layer_updateGrad (ls ! k) (ds ! k) = Inr (ls' ! k))"
  using assms
proof (induction m arbitrary: ls delta out)
  case 0
  show ?case
    by (rule exI [of _ "[]"], rule exI [of _ ls]) simp
next
  case (Suc m)
  let ?l = "ls ! m"
  let ?nl = "ls ! (m + 1)"
  have inv_l: "Layer_inv ?l" and inv_nl: "Layer_inv ?nl"
    using Suc.prems(2) by simp_all
  have sz: "l_inSize ?nl = l_outSize ?l + 1"
    using Suc.prems(3) by simp
  have len: "length delta = l_outSize ?nl"
    using Suc.prems(4) by simp
  define d' where "d' = map (\<lambda>j. Activation_gradient (l_activation ?l) (l_u ?l) ! j *
                     (\<Sum>k<length delta. delta ! k * l_w ?nl ! j ! k)) [0..<l_outSize ?l]"
  have cd: "Layer_calcDelta ?l delta (l_w ?nl) = Inr (d', ?l)"
    unfolding d'_def
    using inv_l inv_nl sz len by (intro Layer_calcDelta_eq) (auto simp: Layer_inv_def)
  have ld: "length d' = l_outSize ?l"
    by (simp add: d'_def)
  obtain ul where ug: "Layer_updateGrad ?l d' = Inr ul"
    using Layer_updateGrad_eq [OF inv_l, of d'] ld by simp
  have inv_ul: "Layer_inv ul"
    using inv_l _ ug by (rule Layer_updateGrad_inv) (simp add: ld)
  note ul = Layer_updateGrad_sizes [OF ug] Layer_updateGrad_w [OF ug]
  let ?ls1 = "ls[m := ul]"
  let ?out1 = "if v then out @ [(m, d')] else out"
  have step: "backward_layers v (rev [0..<Suc m]) ls delta out =
      backward_layers v (rev [0..<m]) ?ls1 d' ?out1"
    using cd ug Suc.prems(1) by simp
  have p1: "m < length ?ls1"
    using Suc.prems(1) by simp
  have p2: "\<forall>k\<le>m. Layer_inv (?ls1 ! k)"
    using Suc.prems(1,2) inv_ul by (simp add: nth_list_update)
  have p3: "\<forall>k<m. l_inSize (?ls1 ! (k + 1)) = l_outSize (?ls1 ! k) + 1"
    using Suc.prems(1,3) ul by (simp add: nth_list_update)
  have p4: "length d' = l_outSize (?ls1 ! m)"
    using Suc.prems(1) ld ul by simp
  from Suc.IH [OF p1 p2 p3 p4, of ?out1] obtain ds1 ls1' where
    r: "backward_layers v (rev [0..<m]) ?ls1 d' ?out1 =
          Inr (if v then ?out1 @ rev (zip [0..<m] ds1) else ?out1, ls1')" and
    lds: "length ds1 = m" and lls: "length ls1' = length ?ls1" and
    keep: "\<forall>k<length ?ls1. m \<le> k \<longrightarrow> ls1' ! k = ?ls1 ! k" and
    calls: "\<forall>k<m. Layer_calcDelta (?ls1 ! k) ((ds1 @ [d']) ! (k + 1)) (l_w (?ls1 ! (k + 1))) =
                 Inr (ds1 ! k, ?ls1 ! k) \<and>
              Layer_updateGrad (?ls1 ! k) (ds1 ! k) = Inr (ls1' ! k)"
    by blast
  let ?ds = "ds1 @ [d']"
  have a: "backward_layers v (rev [0..<Suc m]) ls delta out =
        Inr (if v then out @ rev (zip [0..<Suc m] ?ds) else out, ls1')"
    using step r lds by simp
  have b: "length ?ds = Suc m" "length ls1' = length ls"
    using lds lls by simp_all
  have c: "\<forall>k<length ls. Suc m \<le> k \<longrightarrow> ls1' ! k = ls ! k"
    using keep by (simp add: nth_list_update)
  have d: "\<forall>k<Suc m. Layer_calcDelta (ls ! k) ((?ds @ [delta]) ! (k + 1)) (l_w (ls ! (k + 1))) =
                 Inr (?ds ! k, ls ! k) \<and>
              Layer_updateGrad (ls ! k) (?ds ! k) = Inr (ls1' ! k)"
  proof (intro allI impI)
    fix k assume k: "k < Suc m"
    show "Layer_calcDelta (ls ! k) ((?ds @ [delta]) ! (k + 1)) (l_w (ls ! (k + 1))) =
                 Inr (?ds ! k, ls ! k) \<and>
              Layer_updateGrad (ls ! k) (?ds ! k) = Inr (ls1' ! k)"
    proof (cases "k = m")
      case True
      have "ls1' ! m = ul"
        using keep Suc.prems(1) by simp
      then show ?thesis
        using True cd ug lds by (simp add: nth_append)
    next
      case False
      then have km: "k < m" using k by simp
      have w: "l_w (?ls1 ! (k + 1)) = l_w (ls ! (k + 1))"
        using ul(4) Suc.prems(1) by (cases "k + 1 = m") simp_all
      have e1: "?ls1 ! k = ls ! k"
        using km by simp
      have e2: "(?ds @ [delta]) ! (k + 1) = (ds1 @ [d']) ! (k + 1)"
        using km lds by (simp add: nth_append)
      have e3: "?ds ! k = ds1 ! k"
        using km lds by (simp add: nth_append)
      note c = calls [rule_format, OF km, unfolded e1 w]
      show ?thesis
        unfolding e2 e3 by (rule c)
    qed
  qed
  show ?case
    using a b c d by blast
qed

subsection \<open>Softmax sums\<close>

lemma sum_list_exp_nonneg: "0 \<le> (\<Sum>y\<leftarrow>xs. exp (y :: real))"
  by (induction xs) (simp_all add: add_nonneg_nonneg)

lemma sum_list_exp_pos: "xs \<noteq> [] \<Longrightarrow> 0 < (\<Sum>y\<leftarrow>xs. exp (y :: real))"
  using sum_list_exp_nonneg by (cases xs) (simp_all add: add_pos_nonneg)

lemma exp_le_sum_list_exp: "x \<in> set xs \<Longrightarrow> exp x \<le> (\<Sum>y\<leftarrow>xs. exp (y :: real))"
proof (induction xs)
  case Nil
  then show ?case by simp
next
  case (Cons a xs)
  have "0 \<le> (\<Sum>y\<leftarrow>xs. exp y)"
    by (simp add: sum_list_exp_nonneg)
  with Cons show ?case
    by (auto intro: add_increasing)
qed

lemma exp_less_sum_list_exp:
  "x \<in> set xs \<Longrightarrow> 2 \<le> length xs \<Longrightarrow> exp x < (\<Sum>y\<leftarrow>xs. exp (y :: real))"
proof (cases xs)
  case Nil
  then show "x \<in> set xs \<Longrightarrow> ?thesis" by simp
next
  case (Cons a ys)
  assume x: "x \<in> set xs" and len: "2 \<le> length xs"
  have ys: "ys \<noteq> []" using len Cons by auto
  show ?thesis
  proof (cases "x = a")
    case True
    then show ?thesis using sum_list_exp_pos [OF ys] Cons by simp
  next
    case False
    then have "x \<in> set ys" using x Cons by simp
    then have "exp x \<le> (\<Sum>y\<leftarrow>ys. exp y)" by (rule exp_le_sum_list_exp)
    then have "exp x < exp a + (\<Sum>y\<leftarrow>ys. exp y)"
      by (intro add_strict_increasing) simp_all
    then show ?thesis using Cons by simp
  qed
qed

lemma sum_list_divide: "(\<Sum>x\<leftarrow>xs. f x / (c :: real)) = (\<Sum>x\<leftarrow>xs. f x) / c"
  by (induction xs) (simp_all add: add_divide_distrib)

subsection \<open>Claims\<close>

text \<open>
  Claim C1.  On a layer that has the shape the constructor gave it and an input of
  \<^verbatim>\<open>inSize\<close> entries (so that the augmented input has \<^verbatim>\<open>_inSize\<close> entries),
  \<^verbatim>\<open>forward\<close> returns; the layer then holds the input with a 1 appended as
  \<^verbatim>\<open>_input\<close>, the sums \<open>u[j] = \<Sum>i. input[i] * w[i][j]\<close> as \<^verbatim>\<open>_u\<close> and the activation of
  \<open>u\<close> as \<^verbatim>\<open>_output\<close>, which is also the vector returned, of length \<^verbatim>\<open>_outSize\<close>.
\<close>

theorem C1_Layer_forward:
  assumes "Layer_inv l" and "length x + 1 = l_inSize l"
  shows "\<exists>out l'. Layer_forward l x = Inr (out, l') \<and>
           l_input l' = x @ [1] \<and>
           length (l_u l') = l_outSize l \<and>
           (\<forall>j<l_outSize l. l_u l' ! j = (\<Sum>i<l_inSize l. (x @ [1]) ! i * l_w l ! i ! j)) \<and>
           l_output l' = Activation_activation (l_activation l) (l_u l') \<and>
           out = l_output l' \<and>
           length out = l_outSize l"
  unfolding Layer_forward_eq [OF assms] by (simp add: Let_def)

theorem C1_Layer_forward_witness:
  "Layer_inv example_layer \<and> length [1, -1 :: real] + 1 = l_inSize example_layer \<and>
   (\<exists>out l'. Layer_forward example_layer [1, -1] = Inr (out, l') \<and>
      l_input l' = [1, -1, 1] \<and> l_u l' = [1 / 9, 1 / 6] \<and> out = [1 / 9, 1 / 6] \<and>
      length out = 2)"
proof -
  have h1: "Layer_inv example_layer"
    by (simp add: example_layer_eq Layer_inv_def)
  have h2: "length [1, -1 :: real] + 1 = l_inSize example_layer"
    by (simp add: example_layer_eq)
  show ?thesis
    using h1 h2 C1_Layer_forward [OF h1 h2] by (auto simp: example_forward)
qed

text \<open>
  Claim C2.  On a network with at least one layer, every layer of the constructor's
  shape and each layer's \<^verbatim>\<open>_inSize\<close> one more than the \<^verbatim>\<open>_outSize\<close> of the layer
  before it, and a target as long as the last layer's \<^verbatim>\<open>_outSize\<close>,
  \<^verbatim>\<open>backward\<close> returns, and there is one delta \<open>ds ! k\<close> for every layer \<open>k\<close> such that:
  the last delta is \<open>output[i] - target[i]\<close> of the last layer; the delta of every
  other layer \<open>k\<close> is what \<^verbatim>\<open>calcDelta\<close> of layer \<open>k\<close> returns for the delta of layer
  \<open>k + 1\<close> and the weights of layer \<open>k + 1\<close>; every layer of the resulting network
  is the result of one call of \<^verbatim>\<open>updateGrad\<close> on the layer with its delta, with
  \<^verbatim>\<open>_sampleCount\<close> one higher and \<open>input[i] * delta[j]\<close> added once to every
  accumulator entry; and the lines a verbose network prints list the layers from
  the last down to the first, each with its delta.
\<close>

theorem C2_backward:
  assumes "Network_inv net" and "n_layers net \<noteq> []"
    and "length target = l_outSize (last (n_layers net))"
  shows "\<exists>ds ls'.
      Network_backward net target =
        Inr (if n_verbose net then rev (zip [0..<length (n_layers net)] ds) else [],
             net\<lparr>n_layers := ls'\<rparr>) \<and>
      length ds = length (n_layers net) \<and> length ls' = length (n_layers net) \<and>
      last ds = map (\<lambda>i. l_output (last (n_layers net)) ! i - target ! i) [0..<length target] \<and>
      (\<forall>k. k + 1 < length (n_layers net) \<longrightarrow>
         Layer_calcDelta (n_layers net ! k) (ds ! (k + 1)) (l_w (n_layers net ! (k + 1))) =
           Inr (ds ! k, n_layers net ! k)) \<and>
      (\<forall>k<length (n_layers net).
         Layer_updateGrad (n_layers net ! k) (ds ! k) = Inr (ls' ! k) \<and>
         l_sampleCount (ls' ! k) = l_sampleCount (n_layers net ! k) + 1 \<and>
         l_w_grad (ls' ! k) =
           map (\<lambda>i. map (\<lambda>j. l_w_grad (n_layers net ! k) ! i ! j +
                                l_input (n_layers net ! k) ! i * ds ! k ! j)
                          [0..<l_outSize (n_layers net ! k)])
             [0..<l_inSize (n_layers net ! k)])"
proof -
  let ?ls = "n_layers net"
  let ?n = "length ?ls"
  let ?v = "n_verbose net"
  let ?last = "?ls ! (?n - 1)"
  have n: "0 < ?n" using assms(2) by simp
  have last: "last ?ls = ?last" using assms(2) by (simp add: last_conv_nth)
  have invs: "\<forall>k<?n. Layer_inv (?ls ! k)"
    using assms(1) by (simp add: Network_inv_def list_all_length)
  have chain: "\<forall>k. k + 1 < ?n \<longrightarrow> l_inSize (?ls ! (k + 1)) = l_outSize (?ls ! k) + 1"
    using assms(1) chained_nth [of ?ls] by (auto simp: Network_inv_def)
  have inv_last: "Layer_inv ?last" using invs n by simp
  let ?y = "l_output ?last"
  have ly: "length ?y = length target"
    using inv_last assms(3) last by (simp add: Layer_inv_def)
  define dl where "dl = map (\<lambda>i. ?y ! i - target ! i) [0..<length target]"
  have "backward_delta ?y target [0..<length ?y] (replicate (length target) 0) =
     Inr (map (\<lambda>i. if i \<in> set [0..<length ?y] then ?y ! i - target ! i
                     else replicate (length target) 0 ! i)
            [0..<length (replicate (length target) (0::real))])"
    using ly by (intro backward_delta_eq) simp_all
  then have bd: "backward_delta ?y target [0..<length ?y] (replicate (length target) 0) = Inr dl"
    using ly by (simp add: dl_def)
  have ldl: "length dl = l_outSize ?last"
    using assms(3) last by (simp add: dl_def)
  obtain ll where ug: "Layer_updateGrad ?last dl = Inr ll"
    using Layer_updateGrad_eq [OF inv_last, of dl] ldl by simp
  have inv_ll: "Layer_inv ll"
    using inv_last _ ug by (rule Layer_updateGrad_inv) (simp add: ldl)
  note ll = Layer_updateGrad_sizes [OF ug] Layer_updateGrad_w [OF ug]
  let ?ls1 = "?ls[?n - 1 := ll]"
  let ?out = "if ?v then [(?n - 1, dl)] else []"
  have p1: "?n - 1 < length ?ls1" using n by simp
  have p2: "\<forall>k\<le>?n - 1. Layer_inv (?ls1 ! k)"
    using invs inv_ll n by (simp add: nth_list_update)
  have p3: "\<forall>k<?n - 1. l_inSize (?ls1 ! (k + 1)) = l_outSize (?ls1 ! k) + 1"
    using chain ll n by (simp add: nth_list_update)
  have p4: "length dl = l_outSize (?ls1 ! (?n - 1))"
    using ldl ll n by simp
  from backward_layers_eq [OF p1 p2 p3 p4, of ?v ?out] obtain ds0 ls' where
    r: "backward_layers ?v (rev [0..<?n - 1]) ?ls1 dl ?out =
          Inr (if ?v then ?out @ rev (zip [0..<?n - 1] ds0) else ?out, ls')" and
    lds: "length ds0 = ?n - 1" and lls: "length ls' = length ?ls1" and
    keep: "\<forall>k<length ?ls1. ?n - 1 \<le> k \<longrightarrow> ls' ! k = ?ls1 ! k" and
    calls: "\<forall>k<?n - 1.
              Layer_calcDelta (?ls1 ! k) ((ds0 @ [dl]) ! (k + 1)) (l_w (?ls1 ! (k + 1))) =
                 Inr (ds0 ! k, ?ls1 ! k) \<and>
              Layer_updateGrad (?ls1 ! k) (ds0 ! k) = Inr (ls' ! k)"
    by blast
  let ?ds = "ds0 @ [dl]"
  have upt: "[0..<?n] = [0..<?n - 1] @ [?n - 1]"
    using n by (metis Suc_diff_1 upt_Suc_append zero_le)
  have pr: "(if ?v then ?out @ rev (zip [0..<?n - 1] ds0) else ?out) =
            (if ?v then rev (zip [0..<?n] ?ds) else [])"
    using lds by (simp add: upt)
  have a: "Network_backward net target =
        Inr (if ?v then rev (zip [0..<?n] ?ds) else [], net\<lparr>n_layers := ls'\<rparr>)"
    using assms(2) bd ug r unfolding pr by (simp add: Network_backward_def Let_def)
  have b: "length ?ds = ?n" "length ls' = ?n"
    using lds lls n by simp_all
  have c: "last ?ds = map (\<lambda>i. l_output (last ?ls) ! i - target ! i) [0..<length target]"
    by (simp add: dl_def last)
  have d: "\<forall>k. k + 1 < ?n \<longrightarrow>
         Layer_calcDelta (?ls ! k) (?ds ! (k + 1)) (l_w (?ls ! (k + 1))) = Inr (?ds ! k, ?ls ! k)"
  proof (intro allI impI)
    fix k assume k: "k + 1 < ?n"
    then have km: "k < ?n - 1" by simp
    have e1: "?ls1 ! k = ?ls ! k" using km by simp
    have w: "l_w (?ls1 ! (k + 1)) = l_w (?ls ! (k + 1))"
      using ll(4) k by (cases "k + 1 = ?n - 1") simp_all
    have e3: "?ds ! k = ds0 ! k" using km lds by (simp add: nth_append)
    note c = calls [rule_format, OF km, unfolded e1 w, THEN conjunct1]
    show "Layer_calcDelta (?ls ! k) (?ds ! (k + 1)) (l_w (?ls ! (k + 1))) = Inr (?ds ! k, ?ls ! k)"
      unfolding e3 by (rule c)
  qed
  have e: "\<forall>k<?n. Layer_updateGrad (?ls ! k) (?ds ! k) = Inr (ls' ! k) \<and>
         l_sampleCount (ls' ! k) = l_sampleCount (?ls ! k) + 1 \<and>
         l_w_grad (ls' ! k) =
           map (\<lambda>i. map (\<lambda>j. l_w_grad (?ls ! k) ! i ! j + l_input (?ls ! k) ! i * ?ds ! k ! j)
                          [0..<l_outSize (?ls ! k)])
             [0..<l_inSize (?ls ! k)]"
  proof (intro allI impI)
    fix k assume k: "k < ?n"
    have len: "l_outSize (?ls ! k) \<le> length (?ds ! k)"
    proof (cases "k = ?n - 1")
      case True
      then show ?thesis using ldl lds by (simp add: nth_append)
    next
      case False
      then have "k + 1 < ?n" using k by simp
      then have "Layer_calcDelta (?ls ! k) (?ds ! (k + 1)) (l_w (?ls ! (k + 1))) =
          Inr (?ds ! k, ?ls ! k)"
        using d by blast
      then show ?thesis by (simp add: Layer_calcDelta_length)
    qed
    have ug: "Layer_updateGrad (?ls ! k) (?ds ! k) = Inr (ls' ! k)"
    proof (cases "k = ?n - 1")
      case True
      have "ls' ! (?n - 1) = ll" using keep n by simp
      then show ?thesis using True ug lds by (simp add: nth_append)
    next
      case False
      then have km: "k < ?n - 1" using k by simp
      have e1: "?ls1 ! k = ?ls ! k" using km by simp
      have e3: "?ds ! k = ds0 ! k" using km lds by (simp add: nth_append)
      note c = calls [rule_format, OF km, unfolded e1, THEN conjunct2]
      show ?thesis unfolding e3 by (rule c)
    qed
    have "l_w_grad (ls' ! k) =
           map (\<lambda>i. map (\<lambda>j. l_w_grad (?ls ! k) ! i ! j + l_input (?ls ! k) ! i * ?ds ! k ! j)
                          [0..<l_outSize (?ls ! k)])
             [0..<l_inSize (?ls ! k)]"
    proof -
      have "Layer_inv (?ls ! k)" using invs k by simp
      from Layer_updateGrad_eq [OF this len] ug
      have "ls' ! k =
          (?ls ! k)\<lparr>l_w_grad :=
              map (\<lambda>i. map (\<lambda>j. l_w_grad (?ls ! k) ! i ! j + l_input (?ls ! k) ! i * ?ds ! k ! j)
                             [0..<l_outSize (?ls ! k)])
                [0..<l_inSize (?ls ! k)],
            l_sampleCount := l_sampleCount (?ls ! k) + 1\<rparr>"
        by simp
      then have "l_w_grad (ls' ! k) =
          l_w_grad ((?ls ! k)\<lparr>l_w_grad :=
              map (\<lambda>i. map (\<lambda>j. l_w_grad (?ls ! k) ! i ! j + l_input (?ls ! k) ! i * ?ds ! k ! j)
                             [0..<l_outSize (?ls ! k)])
                [0..<l_inSize (?ls ! k)],
            l_sampleCount := l_sampleCount (?ls ! k) + 1\<rparr>)"
        by (rule arg_cong)
      then show ?thesis by simp
    qed
    then show "Layer_updateGrad (?ls ! k) (?ds ! k) = Inr (ls' ! k) \<and>
         l_sampleCount (ls' ! k) = l_sampleCount (?ls ! k) + 1 \<and>
         l_w_grad (ls' ! k) =
           map (\<lambda>i. map (\<lambda>j. l_w_grad (?ls ! k) ! i ! j + l_input (?ls ! k) ! i * ?ds ! k ! j)
                          [0..<l_outSize (?ls ! k)])
             [0..<l_inSize (?ls ! k)]"
      using ug by (simp add: Layer_updateGrad_sizes)
  qed
  show ?thesis
    using a b c d e by blast
qed

theorem C2_backward_witness:
  "Network_inv example_network_forwarded \<and> n_layers example_network_forwarded \<noteq> [] \<and>
   length [0, 1 :: real] = l_outSize (last (n_layers example_network_forwarded)) \<and>
   (\<exists>ds ls'.
      Network_backward example_network_forwarded [0, 1] =
        Inr (rev (zip [0..<2] ds), example_network_forwarded\<lparr>n_layers := ls'\<rparr>) \<and>
      length ds = 2 \<and> length ls' = 2 \<and> last ds = [1 / 2, - 1 / 2])"
proof -
  have h1: "Network_inv example_network_forwarded"
    by (simp add: Network_inv_def example_network_forwarded_eq example_forwarded_eq Layer_inv_def)
  have h2: "n_layers example_network_forwarded \<noteq> []"
    by (simp add: example_network_forwarded_eq)
  have h3: "length [0, 1 :: real] = l_outSize (last (n_layers example_network_forwarded))"
    by (simp add: example_network_forwarded_eq)
  from C2_backward [OF h1 h2 h3] obtain ds ls' where
    "Network_backward example_network_forwarded [0, 1] =
        Inr (if n_verbose example_network_forwarded
             then rev (zip [0..<length (n_layers example_network_forwarded)] ds) else [],
             example_network_forwarded\<lparr>n_layers := ls'\<rparr>)"
    "length ds = length (n_layers example_network_forwarded)"
    "length ls' = length (n_layers example_network_forwarded)"
    "last ds = map (\<lambda>i. l_output (last (n_layers example_network_forwarded)) ! i - [0, 1] ! i)
                 [0..<length [0, 1 :: real]]"
    by blast
  then have "Network_backward example_network_forwarded [0, 1] =
        Inr (rev (zip [0..<2] ds), example_network_forwarded\<lparr>n_layers := ls'\<rparr>) \<and>
      length ds = 2 \<and> length ls' = 2 \<and> last ds = [1 / 2, - 1 / 2]"
    by (simp add: example_network_forwarded_eq upt_0_2)
  then show ?thesis
    using h1 h2 h3 by blast
qed



text \<open>
  Claim C4.  \<^verbatim>\<open>updateParam\<close> returns the layer as it is when \<^verbatim>\<open>_sampleCount\<close> is 0.
  With a count \<open>N\<close> that is not 0, on a layer of the constructor's shape, every
  weight becomes \<open>w[i][j] - learningRate * w_grad[i][j] / N\<close>, every accumulator
  entry 0 and the count 0; nothing else changes.
\<close>

theorem C4_updateParam:
  "(l_sampleCount l = 0 \<longrightarrow> Layer_updateParam l learningRate = Inr l) \<and>
   (Layer_inv l \<and> l_sampleCount l \<noteq> 0 \<longrightarrow>
      Layer_updateParam l learningRate =
        Inr (l\<lparr>l_w := map (\<lambda>i. map (\<lambda>j. l_w l ! i ! j -
                                 learningRate * l_w_grad l ! i ! j / real (unat (l_sampleCount l)))
                                   [0..<l_outSize l]) [0..<l_inSize l],
               l_w_grad := replicate (l_inSize l) (replicate (l_outSize l) 0),
               l_sampleCount := 0\<rparr>))"
  by (simp add: Layer_updateParam_eq map_replicate_const mult.commute)
    (simp add: Layer_updateParam_def)

theorem C4_updateParam_witness:
  "l_sampleCount example_layer = 0 \<and>
   Layer_updateParam example_layer 1 = Inr example_layer \<and>
   Layer_inv example_accumulated \<and> l_sampleCount example_accumulated \<noteq> 0 \<and>
   Layer_updateParam example_accumulated 2 =
     Inr (example_accumulated\<lparr>l_w := [[-2, -71 / 18], [19 / 9, 25 / 6], [-16 / 9, -67 / 18]],
            l_w_grad := [[0, 0], [0, 0], [0, 0]], l_sampleCount := 0\<rparr>)"
proof -
  have h0: "l_sampleCount example_layer = 0"
    by (simp add: example_layer_eq)
  have h1: "Layer_inv example_accumulated \<and> l_sampleCount example_accumulated \<noteq> 0"
    by (simp add: example_accumulated_eq Layer_inv_def)
  have "Layer_updateParam example_layer 1 = Inr example_layer"
    using C4_updateParam [of example_layer 1] h0 by simp
  moreover have "Layer_updateParam example_accumulated 2 =
     Inr (example_accumulated\<lparr>l_w := [[-2, -71 / 18], [19 / 9, 25 / 6], [-16 / 9, -67 / 18]],
            l_w_grad := [[0, 0], [0, 0], [0, 0]], l_sampleCount := 0\<rparr>)"
    using C4_updateParam [of example_accumulated 2] h1
    by (simp add: example_accumulated_eq upt_rec numeral_2_eq_2 numeral_3_eq_3)
  ultimately show ?thesis
    using h0 h1 by simp
qed

text \<open>
  Claim C5.  The gradient of the Sigmoid activation is, element by element,
  \<open>sigmoid x / (1 - sigmoid x)\<close> with \<open>sigmoid x = 1 / (1 + exp x)\<close>.  At 0 it is 1,
  where the textbook derivative \<open>sigmoid x * (1 - sigmoid x)\<close> is 1/4.
\<close>

theorem C5_Sigmoid_gradient:
  "Activation_gradient SIGMOID xs = map (\<lambda>x. sigmoid x / (1 - sigmoid x)) xs \<and>
   sigmoid x = 1 / (1 + exp x) \<and>
   Activation_gradient SIGMOID [0] = [1] \<and>
   map (\<lambda>x. sigmoid x * (1 - sigmoid x)) [0] = [1 / 4]"
  by (simp add: Sigmoid_gradient_def sigmoid_def)

text \<open>
  Claim C6, as the code has it.  Take a layer of the constructor's shape whose
  accumulators are all 0 and whose \<^verbatim>\<open>_sampleCount\<close> is 0 (as the constructor and
  \<^verbatim>\<open>updateParam\<close> leave them), a delta with at least \<^verbatim>\<open>_outSize\<close> entries and a
  number \<open>N\<close> of calls from 1 up to what the 64-bit counter can count.  In any
  arithmetic, \<open>N\<close> calls of \<^verbatim>\<open>updateGrad\<close> and then \<^verbatim>\<open>updateParam\<close> return, and every
  weight becomes \<open>w[i][j] - (s * learningRate) / N\<close>, where \<open>s\<close> is the product
  \<open>input[i] * delta[j]\<close> added \<open>N\<close> times to 0.  In the arithmetic of the reals these
  are the weights that one call of \<^verbatim>\<open>updateGrad\<close> and then \<^verbatim>\<open>updateParam\<close> gives,
  \<open>w[i][j] - learningRate * (input[i] * delta[j])\<close>.
\<close>

theorem C6_accumulate:
  "(LayerS_inv l \<and> s_outSize l \<le> length delta \<and> s_sampleCount l = 0 \<and>
    s_w_grad l = replicate (s_inSize l) (replicate (s_outSize l) (a_zero A)) \<and>
    1 \<le> N \<and> N < 2 ^ 64 \<longrightarrow>
      accumulate_then_update A N l delta learningRate =
        Inr (map (\<lambda>i. map (\<lambda>j. a_sub A (s_w l ! i ! j)
                   (a_div A
                      (a_mul A
                         (((\<lambda>a. a_add A a (a_mul A (s_input l ! i) (delta ! j))) ^^ N) (a_zero A))
                         learningRate)
                      (a_of_size A (of_nat N))))
               [0..<s_outSize l]) [0..<s_inSize l])) \<and>
   (LayerS_inv r \<and> s_outSize r \<le> length d \<and> s_sampleCount r = 0 \<and>
    s_w_grad r = replicate (s_inSize r) (replicate (s_outSize r) 0) \<and>
    1 \<le> M \<and> M < 2 ^ 64 \<longrightarrow>
      accumulate_then_update exact_arith M r d rate =
        accumulate_then_update exact_arith 1 r d rate \<and>
      accumulate_then_update exact_arith M r d rate =
        Inr (map (\<lambda>i. map (\<lambda>j. s_w r ! i ! j - rate * (s_input r ! i * d ! j))
                        [0..<s_outSize r]) [0..<s_inSize r]))"
proof (intro conjI impI)
  assume "LayerS_inv l \<and> s_outSize l \<le> length delta \<and> s_sampleCount l = 0 \<and>
    s_w_grad l = replicate (s_inSize l) (replicate (s_outSize l) (a_zero A)) \<and>
    1 \<le> N \<and> N < 2 ^ 64"
  then show "accumulate_then_update A N l delta learningRate =
        Inr (map (\<lambda>i. map (\<lambda>j. a_sub A (s_w l ! i ! j)
                   (a_div A
                      (a_mul A
                         (((\<lambda>a. a_add A a (a_mul A (s_input l ! i) (delta ! j))) ^^ N) (a_zero A))
                         learningRate)
                      (a_of_size A (of_nat N))))
               [0..<s_outSize l]) [0..<s_inSize l])"
    by (intro accumulate_then_update_eq) simp_all
next
  assume h: "LayerS_inv r \<and> s_outSize r \<le> length d \<and> s_sampleCount r = 0 \<and>
    s_w_grad r = replicate (s_inSize r) (replicate (s_outSize r) 0) \<and>
    1 \<le> M \<and> M < 2 ^ 64"
  then have m: "accumulate_then_update exact_arith M r d rate =
        Inr (map (\<lambda>i. map (\<lambda>j. s_w r ! i ! j - rate * (s_input r ! i * d ! j))
                        [0..<s_outSize r]) [0..<s_inSize r])"
    by (intro accumulate_then_update_exact) simp_all
  from h have "accumulate_then_update exact_arith 1 r d rate =
        Inr (map (\<lambda>i. map (\<lambda>j. s_w r ! i ! j - rate * (s_input r ! i * d ! j))
                        [0..<s_outSize r]) [0..<s_inSize r])"
    by (intro accumulate_then_update_exact) simp_all
  with m show "accumulate_then_update exact_arith M r d rate =
        accumulate_then_update exact_arith 1 r d rate"
    by simp
  from m show "accumulate_then_update exact_arith M r d rate =
        Inr (map (\<lambda>i. map (\<lambda>j. s_w r ! i ! j - rate * (s_input r ! i * d ! j))
                        [0..<s_outSize r]) [0..<s_inSize r])" .
qed

theorem C6_accumulate_witness:
  "LayerS_inv example_bias_layer \<and>
   s_outSize example_bias_layer \<le> length [3602879701896397 / 2 ^ 55 :: real] \<and>
   s_sampleCount example_bias_layer = 0 \<and>
   s_w_grad example_bias_layer =
     replicate (s_inSize example_bias_layer)
       (replicate (s_outSize example_bias_layer) (a_zero double_arith)) \<and>
   (1 :: nat) \<le> 3 \<and> (3 :: nat) < 2 ^ 64 \<and>
   accumulate_then_update double_arith 3 example_bias_layer [3602879701896397 / 2 ^ 55] 1 =
     Inr (map (\<lambda>i. map (\<lambda>j. a_sub double_arith (s_w example_bias_layer ! i ! j)
                (a_div double_arith
                   (a_mul double_arith
                      (((\<lambda>a. a_add double_arith a
                            (a_mul double_arith (s_input example_bias_layer ! i)
                               ([3602879701896397 / 2 ^ 55] ! j))) ^^ 3)
                         (a_zero double_arith))
                      1)
                   (a_of_size double_arith (of_nat 3))))
            [0..<s_outSize example_bias_layer]) [0..<s_inSize example_bias_layer]) \<and>
   LayerS_inv (to_S example_forwarded) \<and>
   s_outSize (to_S example_forwarded) \<le> length [1, 2 :: real] \<and>
   s_sampleCount (to_S example_forwarded) = 0 \<and>
   s_w_grad (to_S example_forwarded) =
     replicate (s_inSize (to_S example_forwarded)) (replicate (s_outSize (to_S example_forwarded)) 0) \<and>
   accumulate_then_update exact_arith 3 (to_S example_forwarded) [1, 2] (1 / 2) =
     accumulate_then_update exact_arith 1 (to_S example_forwarded) [1, 2] (1 / 2)"
proof -
  have g: "LayerS_inv example_bias_layer \<and>
      s_outSize example_bias_layer \<le> length [3602879701896397 / 2 ^ 55 :: real] \<and>
      s_sampleCount example_bias_layer = 0 \<and>
      s_w_grad example_bias_layer =
        replicate (s_inSize example_bias_layer)
          (replicate (s_outSize example_bias_layer) (a_zero double_arith)) \<and>
      (1 :: nat) \<le> 3 \<and> (3 :: nat) < 2 ^ 64"
    by (simp add: example_bias_layer_eq LayerS_inv_def double_arith_def)
  have h: "LayerS_inv (to_S example_forwarded) \<and>
      s_outSize (to_S example_forwarded) \<le> length [1, 2 :: real] \<and>
      s_sampleCount (to_S example_forwarded) = 0 \<and>
      s_w_grad (to_S example_forwarded) =
        replicate (s_inSize (to_S example_forwarded))
          (replicate (s_outSize (to_S example_forwarded)) 0) \<and>
      (1 :: nat) \<le> 3 \<and> (3 :: nat) < 2 ^ 64"
    by (simp add: example_forwarded_eq LayerS_inv_def to_S_def replicate_numeral)
  note a = C6_accumulate [THEN conjunct1, THEN mp, OF g, of 1]
  note b = C6_accumulate [THEN conjunct2, THEN mp, OF h, THEN conjunct1, of "1 / 2"]
  show ?thesis
    using g h a b by blast
qed

theorem C6_accumulate_counterexample:
  "accumulate_then_update double_arith 2 example_bias_accumulated [3] 1 \<noteq>
     accumulate_then_update double_arith 1 example_bias_accumulated [3] 1 \<and>
   accumulate_then_update exact_arith 2 example_bias_accumulated [3] 1 \<noteq>
     accumulate_then_update exact_arith 1 example_bias_accumulated [3] 1 \<and>
   accumulate_then_update double_arith 3 example_bias_layer [3602879701896397 / 2 ^ 55] 1 \<noteq>
     accumulate_then_update double_arith 1 example_bias_layer [3602879701896397 / 2 ^ 55] 1"
  unfolding double_dirty_twice double_dirty_once exact_dirty_twice exact_dirty_once
    double_tenth_thrice double_tenth_once
  by simp

text \<open>
  Claim C7, as the code has it.  In any arithmetic, Softmax returns a vector as long
  as its input whose elements are \<open>exp x\<^sub>i\<close> divided by the sum of all \<open>exp x\<^sub>j\<close>, added
  from the left to 0.  In the arithmetic of the reals, which is the Softmax of the
  layers above, the output of a vector that is not empty sums to 1; every element is
  positive and at most 1, and below 1 when the vector has two elements or more.
\<close>

theorem C7_Softmax:
  "Softmax_activation_S A xs =
     map (\<lambda>x. a_div A (a_exp A x) (foldl (a_add A) (a_zero A) (map (a_exp A) xs))) xs \<and>
   length (Softmax_activation_S A xs) = length xs \<and>
   Activation_activation SOFTMAX ys = Softmax_activation_S exact_arith ys \<and>
   Softmax_activation_S exact_arith ys = map (\<lambda>x. exp x / (\<Sum>y\<leftarrow>ys. exp y)) ys \<and>
   (ys \<noteq> [] \<longrightarrow> sum_list (Softmax_activation_S exact_arith ys) = 1) \<and>
   (\<forall>y \<in> set (Softmax_activation_S exact_arith ys). 0 < y \<and> y \<le> 1) \<and>
   (2 \<le> length ys \<longrightarrow> (\<forall>y \<in> set (Softmax_activation_S exact_arith ys). y < 1))"
proof (intro conjI impI ballI)
  show "Softmax_activation_S A xs =
     map (\<lambda>x. a_div A (a_exp A x) (foldl (a_add A) (a_zero A) (map (a_exp A) xs))) xs"
    by (simp add: Softmax_activation_S_def Let_def comp_def)
  show "length (Softmax_activation_S A xs) = length xs"
    by (simp add: Softmax_activation_S_def Let_def)
  show "Activation_activation SOFTMAX ys = Softmax_activation_S exact_arith ys"
    by (simp add: Softmax_activation_S_exact)
  show "Softmax_activation_S exact_arith ys = map (\<lambda>x. exp x / (\<Sum>y\<leftarrow>ys. exp y)) ys"
    by (simp add: Softmax_activation_S_exact Softmax_activation_eq)
next
  assume "ys \<noteq> []"
  then have "0 < (\<Sum>y\<leftarrow>ys. exp y)" by (rule sum_list_exp_pos)
  then show "sum_list (Softmax_activation_S exact_arith ys) = 1"
    by (simp add: Softmax_activation_S_exact Softmax_activation_eq sum_list_divide)
next
  fix y assume "y \<in> set (Softmax_activation_S exact_arith ys)"
  then obtain x where x: "x \<in> set ys" and y: "y = exp x / (\<Sum>y\<leftarrow>ys. exp y)"
    by (auto simp: Softmax_activation_S_exact Softmax_activation_eq)
  have "ys \<noteq> []" using x by auto
  then have pos: "0 < (\<Sum>y\<leftarrow>ys. exp y)" by (rule sum_list_exp_pos)
  then show "0 < y" using y by simp
  show "y \<le> 1" using y pos exp_le_sum_list_exp [OF x] by simp
next
  fix y assume len: "2 \<le> length ys" and "y \<in> set (Softmax_activation_S exact_arith ys)"
  then obtain x where x: "x \<in> set ys" and y: "y = exp x / (\<Sum>y\<leftarrow>ys. exp y)"
    by (auto simp: Softmax_activation_S_exact Softmax_activation_eq)
  have "ys \<noteq> []" using x by auto
  then have pos: "0 < (\<Sum>y\<leftarrow>ys. exp y)" by (rule sum_list_exp_pos)
  show "y < 1" using y pos exp_less_sum_list_exp [OF x len] by simp
qed

theorem C7_Softmax_witness:
  "[0, 0 :: real] \<noteq> [] \<and> 2 \<le> length [0, 0 :: real] \<and>
   Activation_activation SOFTMAX [0, 0] = [1 / 2, 1 / 2] \<and>
   sum_list (Softmax_activation_S exact_arith [0, 0]) = 1 \<and>
   list_all (\<lambda>y. 0 < y \<and> y \<le> 1 \<and> y < 1) (Softmax_activation_S exact_arith [0, 0])"
  using C7_Softmax [of exact_arith "[0, 0]" "[0, 0]"] by (simp add: list_all_iff exact_arith_def)

theorem C7_Softmax_counterexample:
  "sum_list (Activation_activation SOFTMAX []) \<noteq> 1 \<and>
   \<not> (Activation_activation SOFTMAX [0] ! 0 < 1) \<and>
   Softmax_activation_S double_arith [0] = [1] \<and>
   Softmax_activation_S double_arith [- 1000, 0] = [0, 1] \<and>
   sum_list (Softmax_activation_S double_arith [0, 0, 0]) = 1 - 1 / 2 ^ 54"
  unfolding Softmax_double_one Softmax_double_underflow Softmax_double_thirds
  by (simp add: Softmax_activation_def)

text \<open>
  Claim C8, as the code has it.  For a network with at least one layer and a target
  as long as the last layer's \<^verbatim>\<open>_output\<close>: when every entry of that output is
  positive, \<^verbatim>\<open>calcLoss\<close> returns \<open>- \<Sum>i. target[i] * ln (output[i])\<close> and leaves
  the network as it is; when some entry is zero or negative, the logarithm of that
  entry is minus infinity or NaN and the loss returned is not a finite number,
  whatever the target holds at that index.
\<close>

theorem C8_calcLoss:
  assumes "n_layers net \<noteq> []"
    and "length target = length (l_output (last (n_layers net)))"
  shows "((\<forall>y \<in> set (l_output (last (n_layers net))). 0 < y) \<longrightarrow>
            Network_calcLoss net target =
              Inr (- (\<Sum>i<length target. target ! i * ln (l_output (last (n_layers net)) ! i)), net)) \<and>
         ((\<exists>y \<in> set (l_output (last (n_layers net))). y \<le> 0) \<longrightarrow>
            Network_calcLoss net target = Inl NonFinite)"
proof (intro conjI impI)
  assume pos: "\<forall>y \<in> set (l_output (last (n_layers net))). 0 < y"
  have "calcLoss_loop (n_layers net) target [0..<length target] 0 =
     Inr (0 - (\<Sum>i\<leftarrow>[0..<length target]. target ! i * ln (l_output (last (n_layers net)) ! i)))"
    using assms pos by (intro calcLoss_loop_eq) simp_all
  then show "Network_calcLoss net target =
     Inr (- (\<Sum>i<length target. target ! i * ln (l_output (last (n_layers net)) ! i)), net)"
    by (simp add: Network_calcLoss_def interv_sum_list_conv_sum_set_nat atLeast0LessThan)
next
  assume "\<exists>y \<in> set (l_output (last (n_layers net))). y \<le> 0"
  then obtain i where "i < length target" "l_output (last (n_layers net)) ! i \<le> 0"
    using assms(2) by (auto simp: in_set_conv_nth)
  then have "calcLoss_loop (n_layers net) target [0..<length target] 0 = Inl NonFinite"
    using assms by (intro calcLoss_loop_NonFinite) auto
  then show "Network_calcLoss net target = Inl NonFinite"
    by (simp add: Network_calcLoss_def)
qed

theorem C8_calcLoss_witness:
  "n_layers example_network_forwarded \<noteq> [] \<and>
   length [0, 1 :: real] = length (l_output (last (n_layers example_network_forwarded))) \<and>
   list_all (\<lambda>y. 0 < y) (l_output (last (n_layers example_network_forwarded))) \<and>
   Network_calcLoss example_network_forwarded [0, 1] = Inr (ln 2, example_network_forwarded) \<and>
   n_layers example_relu_network \<noteq> [] \<and>
   length [1, 0 :: real] = length (l_output (last (n_layers example_relu_network))) \<and>
   list_ex (\<lambda>y. y \<le> 0) (l_output (last (n_layers example_relu_network))) \<and>
   Network_calcLoss example_relu_network [1, 0] = Inl NonFinite"
proof -
  have h1: "n_layers example_network_forwarded \<noteq> []"
    by (simp add: example_network_forwarded_eq)
  have h2: "length [0, 1 :: real] = length (l_output (last (n_layers example_network_forwarded)))"
    by (simp add: example_network_forwarded_eq)
  have h3: "\<forall>y \<in> set (l_output (last (n_layers example_network_forwarded))). 0 < y"
    by (simp add: example_network_forwarded_eq)
  have "Network_calcLoss example_network_forwarded [0, 1] =
      Inr (- (\<Sum>i<length [0, 1 :: real]. [0, 1] ! i *
                ln (l_output (last (n_layers example_network_forwarded)) ! i)),
           example_network_forwarded)"
    using C8_calcLoss [OF h1 h2] h3 by blast
  also have "(\<Sum>i<length [0, 1 :: real]. [0, 1] ! i *
                ln (l_output (last (n_layers example_network_forwarded)) ! i)) = - ln 2"
    by (simp add: example_network_forwarded_eq lessThan_Suc numeral_2_eq_2 ln_div)
  finally have a: "Network_calcLoss example_network_forwarded [0, 1] =
      Inr (ln 2, example_network_forwarded)"
    by simp
  have g1: "n_layers example_relu_network \<noteq> []"
    by (simp add: example_relu_network_eq)
  have g2: "length [1, 0 :: real] = length (l_output (last (n_layers example_relu_network)))"
    by (simp add: example_relu_network_eq)
  have g3: "\<exists>y \<in> set (l_output (last (n_layers example_relu_network))). y \<le> 0"
    by (simp add: example_relu_network_eq)
  have b: "Network_calcLoss example_relu_network [1, 0] = Inl NonFinite"
    using C8_calcLoss [OF g1 g2] g3 by blast
  show ?thesis
    using h1 h2 h3 a g1 g2 g3 b by (simp add: list_all_iff list_ex_iff)
qed

theorem C8_calcLoss_counterexample:
  "l_output (last (n_layers example_relu_network)) = [1 / 4, 0] \<and>
   Network_calcLoss example_relu_network [1, 0] = Inl NonFinite \<and>
   Network_calcLoss example_swish_network [1] = Inl NonFinite"
proof -
  have "0 < 1 + exp (- 1 :: real)"
    by (simp add: add_pos_pos)
  then have "\<not> 1 + exp (- 1 :: real) < 0"
    by simp
  then show ?thesis
    by (simp add: example_relu_network_eq example_swish_network_eq Network_calcLoss_def upt_0_2
          upt_rec [of 0 1])
qed

text \<open>
  Claim C9.  Whenever they return, \<^verbatim>\<open>Layer::forward\<close>, \<^verbatim>\<open>Layer::calcDelta\<close>,
  \<^verbatim>\<open>Layer::updateGrad\<close>, \<^verbatim>\<open>Network::forward\<close>, \<^verbatim>\<open>Network::backward\<close> and
  \<^verbatim>\<open>Network::calcLoss\<close> leave the weight matrix of the layer, respectively of
  every layer of the network, as it was.
\<close>

theorem C9_weights_unchanged:
  "(Layer_forward l x = Inr (out, l1) \<longrightarrow> l_w l1 = l_w l) \<and>
   (Layer_calcDelta l nextDelta nextW = Inr (delta', l2) \<longrightarrow> l_w l2 = l_w l) \<and>
   (Layer_updateGrad l delta = Inr l3 \<longrightarrow> l_w l3 = l_w l) \<and>
   (Network_forward net x = Inr (res, net1) \<longrightarrow> map l_w (n_layers net1) = map l_w (n_layers net)) \<and>
   (Network_backward net target = Inr (pr, net2) \<longrightarrow>
      map l_w (n_layers net2) = map l_w (n_layers net)) \<and>
   (Network_calcLoss net target = Inr (loss, net3) \<longrightarrow>
      map l_w (n_layers net3) = map l_w (n_layers net))"
proof (intro conjI impI)
  show "Layer_forward l x = Inr (out, l1) \<Longrightarrow> l_w l1 = l_w l"
    by (rule Layer_forward_w)
  show "Layer_calcDelta l nextDelta nextW = Inr (delta', l2) \<Longrightarrow> l_w l2 = l_w l"
    by (auto dest: Layer_calcDelta_same)
  show "Layer_updateGrad l delta = Inr l3 \<Longrightarrow> l_w l3 = l_w l"
    by (rule Layer_updateGrad_w)
  show "Network_forward net x = Inr (res, net1) \<Longrightarrow>
      map l_w (n_layers net1) = map l_w (n_layers net)"
    by (auto simp: Network_forward_def split: sum.splits intro: forward_layers_w)
  show "Network_backward net target = Inr (pr, net2) \<Longrightarrow>
      map l_w (n_layers net2) = map l_w (n_layers net)"
    by (rule Network_backward_w)
  show "Network_calcLoss net target = Inr (loss, net3) \<Longrightarrow>
      map l_w (n_layers net3) = map l_w (n_layers net)"
    by (auto simp: Network_calcLoss_def split: sum.splits)
qed

theorem C9_weights_unchanged_witness:
  "Layer_forward example_layer [1, -1] = Inr ([1 / 9, 1 / 6], example_forwarded) \<and>
   l_w example_forwarded = l_w example_layer \<and>
   Layer_calcDelta example_forwarded [1 / 2, - 1 / 2]
       [[1 / 6, 1 / 6], [1 / 6, 1 / 6], [1 / 6, 1 / 6]] = Inr ([0, 0], example_forwarded) \<and>
   Layer_updateGrad example_forwarded [1, 2] = Inr example_accumulated \<and>
   l_w example_accumulated = l_w example_forwarded \<and>
   Network_forward example_network [1, -1] = Inr ([1 / 2, 1 / 2], example_network_forwarded) \<and>
   map l_w (n_layers example_network_forwarded) = map l_w (n_layers example_network) \<and>
   Network_backward example_network_forwarded [0, 1] =
     Inr ([(1, [1 / 2, - 1 / 2]), (0, [0, 0])], example_network_accumulated) \<and>
   map l_w (n_layers example_network_accumulated) = map l_w (n_layers example_network_forwarded) \<and>
   Network_calcLoss example_network_forwarded [0, 1] = Inr (ln 2, example_network_forwarded)"
proof -
  have h1: "Layer_forward example_layer [1, -1] = Inr ([1 / 9, 1 / 6], example_forwarded)"
    by (simp add: example_forwarded_def example_forward)
  have h2: "Layer_calcDelta example_forwarded [1 / 2, - 1 / 2]
       [[1 / 6, 1 / 6], [1 / 6, 1 / 6], [1 / 6, 1 / 6]] = Inr ([0, 0], example_forwarded)"
    by (rule example_calcDelta)
  have h3: "Layer_updateGrad example_forwarded [1, 2] = Inr example_accumulated"
    by (rule example_updateGrad)
  have h4: "Network_forward example_network [1, -1] =
      Inr ([1 / 2, 1 / 2], example_network_forwarded)"
    by (simp add: example_network_forwarded_def example_network_forward)
  have h5: "Network_backward example_network_forwarded [0, 1] =
     Inr ([(1, [1 / 2, - 1 / 2]), (0, [0, 0])], example_network_accumulated)"
    by (simp add: example_network_accumulated_def example_network_backward)
  have h6: "Network_calcLoss example_network_forwarded [0, 1] =
      Inr (ln 2, example_network_forwarded)"
    by (rule example_network_calcLoss)
  note r1 = C9_weights_unchanged [THEN conjunct1, THEN mp, OF h1]
  note r3 = C9_weights_unchanged [THEN conjunct2, THEN conjunct2, THEN conjunct1, THEN mp, OF h3]
  note r4 = C9_weights_unchanged [THEN conjunct2, THEN conjunct2, THEN conjunct2, THEN conjunct1,
      THEN mp, OF h4]
  note r5 = C9_weights_unchanged [THEN conjunct2, THEN conjunct2, THEN conjunct2, THEN conjunct2,
      THEN conjunct1, THEN mp, OF h5]
  show ?thesis
    by (intro conjI) (rule h1 r1 h2 h3 r3 h4 r4 h5 r5 h6)+
qed

text \<open>
  Claim C10.  A network to which no layer has been added returns its input
  unchanged from \<^verbatim>\<open>forward\<close>, and stays as it was: the forward pass over the empty
  stack of layers is the identity.
\<close>

theorem C10_forward_no_layers:
  "Network_forward (Network_ctor v) x = Inr (x, Network_ctor v)"
  by (simp add: Network_forward_def Network_ctor_def)

end
